theory Spec2Isabelle
  imports Main "HOL-Library.Sublist" "HOL-Library.Multiset"
begin

section \<open>Python values and exceptions\<close>

text \<open>
  The exceptions that the modelled code paths of \<^verbatim>\<open>photo_watermark.py\<close> can meet.
  \<open>OSError\<close> stands for every failure of the imaging library or the file system that is
  not one of the more specific classes.
\<close>

datatype py_error = ValueError | TypeError | AttributeError | OSError | FileExistsError

text \<open>
  A value of the dictionary returned by \<^verbatim>\<open>img._getexif()\<close>: a \<^verbatim>\<open>str\<close> (the imaging
  library decodes ASCII fields as Latin-1, one character per byte), or any other Python
  object (an integer, bytes, a tuple, a rational), which is what a field declared with
  another type in the file is read as.
\<close>

datatype exif_value = Str string | NonStr

record datetime =
  dt_year :: nat
  dt_month :: nat
  dt_day :: nat
  dt_hour :: nat
  dt_minute :: nat
  dt_second :: nat

section \<open>\<^verbatim>\<open>datetime.strptime(value, '%Y:%m:%d %H:%M:%S')\<close>\<close>

text \<open>
  The library compiles the format to the regular expression

  \<^verbatim>\<open>(?P<Y>\d\d\d\d):(?P<m>1[0-2]|0[1-9]|[1-9]):(?P<d>3[0-1]|[1-2]\d|0[1-9]|[1-9]| [1-9])\s+\<close>
  \<^verbatim>\<open>(?P<H>2[0-3]|[0-1]\d|\d):(?P<M>[0-5]\d|\d):(?P<S>6[0-1]|[0-5]\d|\d)\<close>

  matches it at the start of the string, raises \<open>ValueError\<close> when there is no match or
  when characters remain after the match, and then builds a \<^verbatim>\<open>datetime\<close>, which raises
  \<open>ValueError\<close> for a field out of range. A matcher returns every way to match, in the
  order in which a backtracking engine tries them: the head of the list is the match found.
\<close>

definition is_digit :: "char \<Rightarrow> bool" where
  "is_digit c = (c \<in> set ''0123456789'')"

definition digit_val :: "char \<Rightarrow> nat" where
  "digit_val c = of_char c - 48"

definition in_range :: "char \<Rightarrow> char \<Rightarrow> char \<Rightarrow> bool" where
  "in_range lo hi c = ((of_char lo :: nat) \<le> of_char c \<and> (of_char c :: nat) \<le> of_char hi)"

definition is_space :: "char \<Rightarrow> bool" where
  \<comment> \<open>\<^verbatim>\<open>\s\<close> on a \<^verbatim>\<open>str\<close>, for the code points below 256\<close>
  "is_space c = ((of_char c :: nat) \<in> {9, 10, 11, 12, 13, 28, 29, 30, 31, 32, 133, 160})"

definition two :: "(char \<Rightarrow> bool) \<Rightarrow> (char \<Rightarrow> bool) \<Rightarrow> string \<Rightarrow> (nat \<times> string) list" where
  "two P Q s = (case s of a # b # r \<Rightarrow>
                  if P a \<and> Q b then [(10 * digit_val a + digit_val b, r)] else []
                | _ \<Rightarrow> [])"

definition one :: "(char \<Rightarrow> bool) \<Rightarrow> string \<Rightarrow> (nat \<times> string) list" where
  "one P s = (case s of a # r \<Rightarrow> if P a then [(digit_val a, r)] else [] | _ \<Rightarrow> [])"

definition space_one :: "string \<Rightarrow> (nat \<times> string) list" where
  \<comment> \<open>the alternative \<^verbatim>\<open> [1-9]\<close> of the day\<close>
  "space_one s = (case s of a # b # r \<Rightarrow>
                    if a = CHR '' '' \<and> in_range CHR ''1'' CHR ''9'' b then [(digit_val b, r)] else []
                  | _ \<Rightarrow> [])"

definition lit :: "char \<Rightarrow> string \<Rightarrow> string list" where
  "lit c s = (case s of a # r \<Rightarrow> if a = c then [r] else [] | _ \<Rightarrow> [])"

fun rx_spaces :: "string \<Rightarrow> string list" where
  \<comment> \<open>\<^verbatim>\<open>\s+\<close>, greedy: the longest run first\<close>
  "rx_spaces [] = []"
| "rx_spaces (a # r) = (if is_space a then rx_spaces r @ [r] else [])"

definition rx_Y :: "string \<Rightarrow> (nat \<times> string) list" where
  "rx_Y s = (case s of a # b # c # d # r \<Rightarrow>
               if is_digit a \<and> is_digit b \<and> is_digit c \<and> is_digit d
               then [(1000 * digit_val a + 100 * digit_val b + 10 * digit_val c + digit_val d, r)]
               else []
             | _ \<Rightarrow> [])"

definition rx_m :: "string \<Rightarrow> (nat \<times> string) list" where
  "rx_m s = two (\<lambda>c. c = CHR ''1'') (in_range CHR ''0'' CHR ''2'') s
          @ two (\<lambda>c. c = CHR ''0'') (in_range CHR ''1'' CHR ''9'') s
          @ one (in_range CHR ''1'' CHR ''9'') s"

definition rx_d :: "string \<Rightarrow> (nat \<times> string) list" where
  "rx_d s = two (\<lambda>c. c = CHR ''3'') (in_range CHR ''0'' CHR ''1'') s
          @ two (in_range CHR ''1'' CHR ''2'') is_digit s
          @ two (\<lambda>c. c = CHR ''0'') (in_range CHR ''1'' CHR ''9'') s
          @ one (in_range CHR ''1'' CHR ''9'') s
          @ space_one s"

definition rx_H :: "string \<Rightarrow> (nat \<times> string) list" where
  "rx_H s = two (\<lambda>c. c = CHR ''2'') (in_range CHR ''0'' CHR ''3'') s
          @ two (in_range CHR ''0'' CHR ''1'') is_digit s
          @ one is_digit s"

definition rx_M :: "string \<Rightarrow> (nat \<times> string) list" where
  "rx_M s = two (in_range CHR ''0'' CHR ''5'') is_digit s @ one is_digit s"

definition rx_S :: "string \<Rightarrow> (nat \<times> string) list" where
  "rx_S s = two (\<lambda>c. c = CHR ''6'') (in_range CHR ''0'' CHR ''1'') s
          @ two (in_range CHR ''0'' CHR ''5'') is_digit s
          @ one is_digit s"

type_synonym fields = "nat \<times> nat \<times> nat \<times> nat \<times> nat \<times> nat"

definition rx_from_S :: "nat \<Rightarrow> nat \<Rightarrow> nat \<Rightarrow> nat \<Rightarrow> nat \<Rightarrow> string \<Rightarrow> (fields \<times> string) list" where
  "rx_from_S Y m d H M s = [((Y, m, d, H, M, S), r). (S, r) \<leftarrow> rx_S s]"

definition rx_from_M :: "nat \<Rightarrow> nat \<Rightarrow> nat \<Rightarrow> nat \<Rightarrow> string \<Rightarrow> (fields \<times> string) list" where
  "rx_from_M Y m d H s = [x. (M, s1) \<leftarrow> rx_M s, s2 \<leftarrow> lit CHR '':'' s1, x \<leftarrow> rx_from_S Y m d H M s2]"

definition rx_from_H :: "nat \<Rightarrow> nat \<Rightarrow> nat \<Rightarrow> string \<Rightarrow> (fields \<times> string) list" where
  "rx_from_H Y m d s = [x. (H, s1) \<leftarrow> rx_H s, s2 \<leftarrow> lit CHR '':'' s1, x \<leftarrow> rx_from_M Y m d H s2]"

definition rx_from_d :: "nat \<Rightarrow> nat \<Rightarrow> string \<Rightarrow> (fields \<times> string) list" where
  "rx_from_d Y m s = [x. (d, s1) \<leftarrow> rx_d s, s2 \<leftarrow> rx_spaces s1, x \<leftarrow> rx_from_H Y m d s2]"

definition rx_from_m :: "nat \<Rightarrow> string \<Rightarrow> (fields \<times> string) list" where
  "rx_from_m Y s = [x. (m, s1) \<leftarrow> rx_m s, s2 \<leftarrow> lit CHR '':'' s1, x \<leftarrow> rx_from_d Y m s2]"

definition rx_match :: "string \<Rightarrow> (fields \<times> string) list" where
  "rx_match s = [x. (Y, s1) \<leftarrow> rx_Y s, s2 \<leftarrow> lit CHR '':'' s1, x \<leftarrow> rx_from_m Y s2]"

definition is_leap :: "nat \<Rightarrow> bool" where
  "is_leap y = (y mod 4 = 0 \<and> (y mod 100 \<noteq> 0 \<or> y mod 400 = 0))"

definition days_in_month :: "nat \<Rightarrow> nat \<Rightarrow> nat" where
  "days_in_month y m =
     (if m = 2 then (if is_leap y then 29 else 28)
      else if m \<in> {4, 6, 9, 11} then 30 else 31)"

definition make_datetime :: "fields \<Rightarrow> py_error + datetime" where
  \<comment> \<open>the constructor of \<^verbatim>\<open>datetime\<close>: every field is range-checked\<close>
  "make_datetime f = (case f of (Y, m, d, H, M, S) \<Rightarrow>
     if 1 \<le> Y \<and> Y \<le> 9999 \<and> 1 \<le> m \<and> m \<le> 12 \<and> 1 \<le> d \<and> d \<le> days_in_month Y m
        \<and> H \<le> 23 \<and> M \<le> 59 \<and> S \<le> 59
     then Inr \<lparr>dt_year = Y, dt_month = m, dt_day = d, dt_hour = H, dt_minute = M, dt_second = S\<rparr>
     else Inl ValueError)"

definition strptime :: "exif_value \<Rightarrow> py_error + datetime" where
  "strptime v = (case v of
       NonStr \<Rightarrow> Inl TypeError
     | Str s \<Rightarrow> (case rx_match s of
           [] \<Rightarrow> Inl ValueError
         | (f, rest) # _ \<Rightarrow> if rest \<noteq> [] then Inl ValueError else make_datetime f))"

section \<open>\<^verbatim>\<open>dt.strftime('%Y-%m-%d')\<close>\<close>

definition digit_char :: "nat \<Rightarrow> char" where
  "digit_char n = ''0123456789'' ! (n mod 10)"

fun dec :: "nat \<Rightarrow> string" where
  "dec n = (if n < 10 then [digit_char n] else dec (n div 10) @ [digit_char (n mod 10)])"

declare dec.simps [simp del]

definition pad2 :: "nat \<Rightarrow> string" where
  "pad2 n = [digit_char (n div 10 mod 10), digit_char (n mod 10)]"

definition strftime :: "datetime \<Rightarrow> string" where
  \<comment> \<open>\<^verbatim>\<open>%Y\<close> is the year in decimal as the C library prints it (glibc does not pad it;
      from the year 1000 on every platform prints the same four digits);
      \<^verbatim>\<open>%m\<close> and \<^verbatim>\<open>%d\<close> are two digits\<close>
  "strftime dt = dec (dt_year dt) @ ''-'' @ pad2 (dt_month dt) @ ''-'' @ pad2 (dt_day dt)"

section \<open>\<^verbatim>\<open>PhotoWatermark.get_shooting_date\<close>\<close>

text \<open>
  What opening the file and calling \<^verbatim>\<open>img._getexif()\<close> gives: an exception from
  \<^verbatim>\<open>Image.open\<close>, an exception from \<^verbatim>\<open>_getexif\<close> (a format whose class has no such
  method, or a container that cannot be parsed), \<^verbatim>\<open>None\<close>, or a dictionary, kept as the
  list of its items in iteration order.
\<close>

datatype exif_read =
    OpenRaises py_error
  | GetexifRaises py_error
  | NoExif
  | Exif "(int \<times> exif_value) list"

text \<open>
  One pass \<^verbatim>\<open>for tag_id, value in exif_data.items()\<close> looking for the tag called \<open>name\<close>.
  \<open>TAGS\<close> is the table \<^verbatim>\<open>ExifTags.TAGS\<close> of the imaging library;
  \<^verbatim>\<open>TAGS.get(tag_id, tag_id)\<close> is the number itself for an unknown tag, which equals no name.
  \<open>Inr (Some d)\<close>: the function returned \<open>d\<close>; \<open>Inr None\<close>: the loop ended;
  \<open>Inl e\<close>: an exception other than \<open>ValueError\<close> left the loop.
\<close>

fun scan_tag :: "(int \<Rightarrow> string option) \<Rightarrow> string \<Rightarrow> (int \<times> exif_value) list
                  \<Rightarrow> py_error + string option" where
  "scan_tag TAGS name [] = Inr None"
| "scan_tag TAGS name ((tag_id, v) # items) =
     (if TAGS tag_id = Some name
      then (case strptime v of
              Inr dt \<Rightarrow> Inr (Some (strftime dt))
            | Inl ValueError \<Rightarrow> scan_tag TAGS name items
            | Inl e \<Rightarrow> Inl e)
      else scan_tag TAGS name items)"

fun scan_tags :: "(int \<Rightarrow> string option) \<Rightarrow> string list \<Rightarrow> (int \<times> exif_value) list
                   \<Rightarrow> py_error + string option" where
  "scan_tags TAGS [] items = Inr None"
| "scan_tags TAGS (name # names) items =
     (case scan_tag TAGS name items of
        Inr None \<Rightarrow> scan_tags TAGS names items
      | r \<Rightarrow> r)"

definition date_tags :: "string list" where
  "date_tags = [''DateTimeOriginal'', ''DateTimeDigitized'']"

definition search_exif :: "(int \<Rightarrow> string option) \<Rightarrow> (int \<times> exif_value) list
                            \<Rightarrow> py_error + string option" where
  \<comment> \<open>lines 44 to 67: the loop for \<^verbatim>\<open>DateTime\<close>, then the loops for \<^verbatim>\<open>date_tags\<close>\<close>
  "search_exif TAGS items =
     (case scan_tag TAGS ''DateTime'' items of
        Inr None \<Rightarrow> scan_tags TAGS date_tags items
      | r \<Rightarrow> r)"

definition get_shooting_date :: "(int \<Rightarrow> string option) \<Rightarrow> exif_read \<Rightarrow> string option" where
  \<comment> \<open>\<^verbatim>\<open>except Exception\<close> prints the error and returns \<^verbatim>\<open>None\<close>\<close>
  "get_shooting_date TAGS r = (case r of
       OpenRaises e \<Rightarrow> None
     | GetexifRaises e \<Rightarrow> None
     | NoExif \<Rightarrow> None
     | Exif items \<Rightarrow> (case search_exif TAGS items of Inl e \<Rightarrow> None | Inr d \<Rightarrow> d))"

subsection \<open>The search, read as a priority list\<close>

text \<open>
  The values the search looks at, in the order in which it looks at them: the values
  of the items called \<^verbatim>\<open>DateTime\<close>, then those called \<^verbatim>\<open>DateTimeOriginal\<close>, then those
  called \<^verbatim>\<open>DateTimeDigitized\<close>.
\<close>

definition values_of :: "(int \<Rightarrow> string option) \<Rightarrow> string \<Rightarrow> (int \<times> exif_value) list \<Rightarrow> exif_value list" where
  "values_of TAGS name items = map snd (filter (\<lambda>(tag_id, v). TAGS tag_id = Some name) items)"

definition candidates :: "(int \<Rightarrow> string option) \<Rightarrow> (int \<times> exif_value) list \<Rightarrow> exif_value list" where
  "candidates TAGS items =
     values_of TAGS ''DateTime'' items @ values_of TAGS ''DateTimeOriginal'' items
     @ values_of TAGS ''DateTimeDigitized'' items"

fun try_values :: "exif_value list \<Rightarrow> py_error + string option" where
  "try_values [] = Inr None"
| "try_values (v # vs) =
     (case strptime v of
        Inr dt \<Rightarrow> Inr (Some (strftime dt))
      | Inl ValueError \<Rightarrow> try_values vs
      | Inl e \<Rightarrow> Inl e)"

definition usable :: "exif_value \<Rightarrow> bool" where
  "usable v = (case strptime v of Inr dt \<Rightarrow> True | Inl e \<Rightarrow> False)"

definition rejected :: "exif_value \<Rightarrow> bool" where
  \<comment> \<open>a text that \<^verbatim>\<open>strptime\<close> refuses with \<open>ValueError\<close>\<close>
  "rejected v = (strptime v = Inl ValueError)"

text \<open>
  A timestamp written exactly as \<^verbatim>\<open>YYYY:MM:DD HH:MM:SS\<close>: nineteen characters, digits
  and separators in their places, naming a day of the calendar and a time of day,
  in a year from 1000 on.
\<close>

definition num2 :: "string \<Rightarrow> nat \<Rightarrow> nat" where
  "num2 s i = 10 * digit_val (s ! i) + digit_val (s ! (i + 1))"

definition num4 :: "string \<Rightarrow> nat \<Rightarrow> nat" where
  "num4 s i = 1000 * digit_val (s ! i) + 100 * digit_val (s ! (i + 1))
            + 10 * digit_val (s ! (i + 2)) + digit_val (s ! (i + 3))"

definition valid_timestamp :: "string \<Rightarrow> bool" where
  "valid_timestamp s =
     (length s = 19
      \<and> s ! 4 = CHR '':'' \<and> s ! 7 = CHR '':'' \<and> s ! 10 = CHR '' '' \<and> s ! 13 = CHR '':'' \<and> s ! 16 = CHR '':''
      \<and> list_all (\<lambda>i. is_digit (s ! i)) [0, 1, 2, 3, 5, 6, 8, 9, 11, 12, 14, 15, 17, 18]
      \<and> s ! 0 \<noteq> CHR ''0''
      \<and> 1 \<le> num2 s 5 \<and> num2 s 5 \<le> 12
      \<and> 1 \<le> num2 s 8 \<and> num2 s 8 \<le> days_in_month (num4 s 0) (num2 s 5)
      \<and> num2 s 11 \<le> 23 \<and> num2 s 14 \<le> 59 \<and> num2 s 17 \<le> 59)"

definition date_portion :: "string \<Rightarrow> string" where
  \<comment> \<open>the first ten characters, the colons written as hyphens\<close>
  "date_portion s = map (\<lambda>c. if c = CHR '':'' then CHR ''-'' else c) (take 10 s)"

section \<open>\<^verbatim>\<open>parse_color\<close>\<close>

text \<open>
  \<^verbatim>\<open>int(s, base)\<close> on a \<^verbatim>\<open>str\<close>: white space is stripped at both ends, a sign may come
  first, base 16 allows the prefix \<^verbatim>\<open>0x\<close>, the digits may be separated by single
  underscores, and at least one digit is needed. A decimal numeral of more than 4300 digits
  is refused (CPython 3.11 and later).
\<close>

definition char_value :: "char \<Rightarrow> nat option" where
  "char_value c =
     (if in_range CHR ''0'' CHR ''9'' c then Some (of_char c - 48)
      else if in_range CHR ''a'' CHR ''z'' c then Some (of_char c - 87)
      else if in_range CHR ''A'' CHR ''Z'' c then Some (of_char c - 55)
      else None)"

definition digit_in :: "nat \<Rightarrow> char \<Rightarrow> bool" where
  "digit_in base c = (case char_value c of Some v \<Rightarrow> v < base | None \<Rightarrow> False)"

fun rest_ok :: "nat \<Rightarrow> string \<Rightarrow> bool" where
  "rest_ok base [] = True"
| "rest_ok base (c # r) =
     (if c = CHR ''_''
      then (case r of [] \<Rightarrow> False | d # r' \<Rightarrow> digit_in base d \<and> rest_ok base r')
      else digit_in base c \<and> rest_ok base r)"

definition digits_ok :: "nat \<Rightarrow> string \<Rightarrow> bool" where
  "digits_ok base s = (case s of [] \<Rightarrow> False | c # r \<Rightarrow> digit_in base c \<and> rest_ok base r)"

definition digits_value :: "nat \<Rightarrow> string \<Rightarrow> nat" where
  "digits_value base ds = foldl (\<lambda>a c. base * a + (case char_value c of Some v \<Rightarrow> v | None \<Rightarrow> 0)) 0 ds"

definition is_int_space :: "char \<Rightarrow> bool" where
  \<comment> \<open>what \<^verbatim>\<open>int\<close> strips: ASCII white space, and the two white-space code points from
      128 to 255, which it first turns into spaces; not the separators 28 to 31\<close>
  "is_int_space c = ((of_char c :: nat) \<in> {9, 10, 11, 12, 13, 32, 133, 160})"

definition strip :: "string \<Rightarrow> string" where
  "strip s = rev (dropWhile is_int_space (rev (dropWhile is_int_space s)))"

definition py_int :: "nat \<Rightarrow> string \<Rightarrow> py_error + int" where
  "py_int base s =
     (let t = strip s;
          (neg, u) = (case t of c # r \<Rightarrow> if c = CHR ''-'' then (True, r)
                                        else if c = CHR ''+'' then (False, r) else (False, t)
                      | [] \<Rightarrow> (False, t));
          body = (if base = 16 \<and> (take 2 u = ''0x'' \<or> take 2 u = ''0X'')
                  then (case drop 2 u of c # r \<Rightarrow> if c = CHR ''_'' then r else c # r | [] \<Rightarrow> [])
                  else u);
          ds = filter (\<lambda>c. c \<noteq> CHR ''_'') body
      in if \<not> digits_ok base body then Inl ValueError
         else if base = 10 \<and> 4300 < length ds then Inl ValueError
         else Inr ((if neg then - 1 else 1) * int (digits_value base ds)))"

fun split_on :: "char \<Rightarrow> string \<Rightarrow> string list" where
  \<comment> \<open>\<^verbatim>\<open>s.split(c)\<close>: never empty, one part more than there are separators\<close>
  "split_on c [] = [[]]"
| "split_on c (a # r) =
     (if a = c then [] # split_on c r
      else (case split_on c r of p # ps \<Rightarrow> (a # p) # ps | [] \<Rightarrow> [[a]]))"

fun collect :: "(py_error + 'a) list \<Rightarrow> py_error + 'a list" where
  \<comment> \<open>a tuple built from conversions: the first exception ends it\<close>
  "collect [] = Inr []"
| "collect (Inl e # rs) = Inl e"
| "collect (Inr x # rs) = (case collect rs of Inl e \<Rightarrow> Inl e | Inr xs \<Rightarrow> Inr (x # xs))"

definition lower_char :: "char \<Rightarrow> char" where
  \<comment> \<open>\<^verbatim>\<open>str.lower\<close> on the code points below 256\<close>
  "lower_char c =
     (let n = (of_char c :: nat)
      in if (65 \<le> n \<and> n \<le> 90) \<or> (192 \<le> n \<and> n \<le> 222 \<and> n \<noteq> 215) then char_of (n + 32) else c)"

definition lower :: "string \<Rightarrow> string" where
  "lower s = map lower_char s"

definition upper_char :: "char \<Rightarrow> char" where
  \<comment> \<open>\<^verbatim>\<open>str.upper\<close> on ASCII; it is applied to the supported extensions only\<close>
  "upper_char c = (let n = (of_char c :: nat) in if 97 \<le> n \<and> n \<le> 122 then char_of (n - 32) else c)"

definition upper :: "string \<Rightarrow> string" where
  "upper s = map upper_char s"

definition white :: "int list" where
  "white = [255, 255, 255]"

definition colors :: "(string \<times> int list) list" where
  "colors = [(''white'', [255, 255, 255]), (''black'', [0, 0, 0]), (''red'', [255, 0, 0]),
             (''green'', [0, 255, 0]), (''blue'', [0, 0, 255]), (''yellow'', [255, 255, 0]),
             (''cyan'', [0, 255, 255]), (''magenta'', [255, 0, 255])]"

definition parse_color_body :: "string \<Rightarrow> py_error + int list" where
  "parse_color_body color_str =
     (if prefix ''#'' color_str
      then (let h = dropWhile (\<lambda>c. c = CHR ''#'') color_str
            in collect (map (\<lambda>i. py_int 16 (take 2 (drop i h))) [0, 2, 4]))
      else if CHR '','' \<in> set color_str
      then collect (map (py_int 10) (split_on CHR '','' color_str))
      else Inr (case map_of colors (lower color_str) of Some c \<Rightarrow> c | None \<Rightarrow> white))"

definition parse_color :: "string \<Rightarrow> int list" where
  \<comment> \<open>the bare \<^verbatim>\<open>except\<close> turns every exception into white\<close>
  "parse_color color_str = (case parse_color_body color_str of Inl e \<Rightarrow> white | Inr c \<Rightarrow> c)"

definition valid_rgb :: "int list \<Rightarrow> bool" where
  "valid_rgb c = (length c = 3 \<and> list_all (\<lambda>x. 0 \<le> x \<and> x \<le> 255) c)"

section \<open>\<^verbatim>\<open>PhotoWatermark.add_watermark\<close>\<close>

text \<open>
  What the imaging library does with one image file: the result of \<^verbatim>\<open>Image.open\<close> and
  \<^verbatim>\<open>convert('RGBA')\<close> (an exception, or the width and height), what the second opening
  in \<^verbatim>\<open>get_shooting_date\<close> finds, the bounding box \<^verbatim>\<open>draw.textbbox((0, 0), text, font)\<close>
  for a font size and a text (with the font that could be loaded), and whether drawing
  with a fill colour, compositing and saving raise.
\<close>

record image_env =
  open_result :: "py_error + int \<times> int"
  exif :: exif_read
  textbbox :: "int \<Rightarrow> string \<Rightarrow> int \<times> int \<times> int \<times> int"
  draw_raises :: "int list \<Rightarrow> py_error option"
  save_raises :: "py_error option"

type_synonym path = "string list"

text \<open>
  A path is the list of its components. The argument \<^verbatim>\<open>output_path\<close> is either a
  \<^verbatim>\<open>str\<close> or a \<^verbatim>\<open>pathlib.Path\<close> object; the latter has no method \<^verbatim>\<open>lower\<close>.
\<close>

datatype path_arg = PathStr string | PathObj path

datatype mode = RGB | RGBA

record saved =
  sv_path :: path_arg
  sv_text :: string
  sv_xy :: "int \<times> int"
  sv_fill :: "int list"
  sv_mode :: mode
  sv_quality :: nat

definition placeholder :: string where
  \<comment> \<open>the four characters of line 94, as the bytes of their UTF-8 encoding\<close>
  "placeholder = map char_of [230, 156, 170, 231, 159, 165, 230, 151, 165, 230, 156, 159 :: nat]"

definition watermark_text :: "string option \<Rightarrow> string" where
  "watermark_text shooting_date = (case shooting_date of None \<Rightarrow> placeholder | Some d \<Rightarrow> d)"

definition anchor :: "string \<Rightarrow> int \<Rightarrow> int \<Rightarrow> int \<Rightarrow> int \<Rightarrow> int \<times> int" where
  "anchor position width height text_width text_height =
     (let margin = 20
      in if position = ''top-left'' then (margin, margin)
         else if position = ''top-right'' then (width - text_width - margin, margin)
         else if position = ''center'' then ((width - text_width) div 2, (height - text_height) div 2)
         else if position = ''bottom-left'' then (margin, height - text_height - margin)
         else (width - text_width - margin, height - text_height - margin))"

definition needs_flatten :: "string \<Rightarrow> bool" where
  "needs_flatten output_path = (suffix ''.jpg'' (lower output_path) \<or> suffix ''.jpeg'' (lower output_path))"

text \<open>
  \<open>alpha\<close> stands for \<^verbatim>\<open>int(255 * opacity)\<close>, a floating-point product that is computed
  before the call here. Every exception is printed and raised again by line 141.
\<close>

definition add_watermark :: "(int \<Rightarrow> string option) \<Rightarrow> image_env \<Rightarrow> path_arg \<Rightarrow> int \<Rightarrow> int list \<Rightarrow> string
                              \<Rightarrow> int \<Rightarrow> py_error + saved" where
  "add_watermark TAGS env output_path font_size color position alpha =
     (case open_result env of
        Inl e \<Rightarrow> Inl e
      | Inr (width, height) \<Rightarrow>
          (let shooting_date = watermark_text (get_shooting_date TAGS (exif env));
               (x0, y0, x1, y1) = textbbox env font_size shooting_date;
               text_width = x1 - x0;
               text_height = y1 - y0;
               xy = anchor position width height text_width text_height;
               text_color = color @ [alpha]
           in case draw_raises env text_color of
                Some e \<Rightarrow> Inl e
              | None \<Rightarrow>
                  (case output_path of
                     PathObj p \<Rightarrow> Inl AttributeError
                   | PathStr s \<Rightarrow>
                       (let m = (if needs_flatten s then RGB else RGBA)
                        in case save_raises env of
                             Some e \<Rightarrow> Inl e
                           | None \<Rightarrow> Inr \<lparr>sv_path = output_path, sv_text = shooting_date, sv_xy = xy,
                                            sv_fill = text_color, sv_mode = m, sv_quality = 95\<rparr>))))"

section \<open>The file system, \<^verbatim>\<open>process_directory\<close> and \<^verbatim>\<open>main\<close>\<close>

datatype node = IsFile | IsDir

text \<open>
  The platforms that \<^verbatim>\<open>_get_default_font\<close> tells apart by \<^verbatim>\<open>sys.platform\<close>.
\<close>

datatype platform = Windows | Darwin | Other

definition get_default_font :: "platform \<Rightarrow> string" where
  "get_default_font pf =
     (if pf = Windows then ''C:/Windows/Fonts/simhei.ttf''
      else if pf = Darwin then ''/System/Library/Fonts/PingFang.ttc''
      else ''/usr/share/fonts/truetype/dejavu/DejaVuSans.ttf'')"

text \<open>
  The part of the system the program looks at: the platform, what a path names, the names
  in a directory in the order the system lists them, what the imaging library makes of a
  file, and whether directories can be created.
\<close>

record world =
  platform :: platform
  kind :: "path \<Rightarrow> node option"
  entries :: "path \<Rightarrow> string list"
  image_of :: "path \<Rightarrow> image_env"
  read_only :: bool

definition path_name :: "path \<Rightarrow> string" where
  "path_name p = (if p = [] then [] else last p)"

definition path_parent :: "path \<Rightarrow> path" where
  "path_parent p = butlast p"

definition path_suffix :: "string \<Rightarrow> string" where
  \<comment> \<open>\<^verbatim>\<open>i = name.rfind('.')\<close>; \<^verbatim>\<open>name[i:]\<close> if \<^verbatim>\<open>0 < i < len(name) - 1\<close>, else empty\<close>
  "path_suffix name =
     (let after = rev (takeWhile (\<lambda>c. c \<noteq> CHR ''.'') (rev name))
      in if CHR ''.'' \<in> set name \<and> after \<noteq> [] \<and> length after + 1 < length name
         then CHR ''.'' # after else [])"

definition path_stem :: "string \<Rightarrow> string" where
  "path_stem name = take (length name - length (path_suffix name)) name"

definition mkdir_exist_ok :: "path \<Rightarrow> world \<Rightarrow> py_error + world" where
  "mkdir_exist_ok p w =
     (case kind w p of
        Some IsDir \<Rightarrow> Inr w
      | Some IsFile \<Rightarrow> Inl FileExistsError
      | None \<Rightarrow> if read_only w then Inl OSError
                else Inr (w\<lparr>kind := (kind w)(p \<mapsto> IsDir),
                            entries := (entries w)(path_parent p := entries w (path_parent p) @ [path_name p])\<rparr>))"

definition supported_formats :: "string list" where
  "supported_formats = [''.jpg'', ''.jpeg'', ''.png'', ''.bmp'', ''.tiff'', ''.tif'']"

definition glob_suffix :: "platform \<Rightarrow> string \<Rightarrow> string list \<Rightarrow> string list" where
  \<comment> \<open>\<^verbatim>\<open>input_path.glob('*' + ext)\<close>: the entries that end with \<open>ext\<close>, in listing order.
      \<^verbatim>\<open>pathlib\<close> compares the names with the pattern without regard to letter case on
      Windows, and exactly on the other platforms\<close>
  "glob_suffix pf ext names =
     (if pf = Windows then filter (\<lambda>name. suffix (lower ext) (lower name)) names
      else filter (suffix ext) names)"

text \<open>
  \<open>fmts\<close> is the order in which the set \<^verbatim>\<open>self.supported_formats\<close> is iterated, which the
  language leaves open.
\<close>

definition image_files :: "platform \<Rightarrow> string list \<Rightarrow> string list \<Rightarrow> string list" where
  "image_files pf fmts names =
     concat (map (\<lambda>ext. glob_suffix pf ext names @ glob_suffix pf (upper ext) names) fmts)"

definition dir_supported :: "string \<Rightarrow> bool" where
  \<comment> \<open>a name that ends with a supported extension, all lower case or all upper case\<close>
  "dir_supported name = list_ex (\<lambda>ext. suffix ext name \<or> suffix (upper ext) name) supported_formats"

datatype message =
    DirMissing
  | OutputDir path
  | NoImages
  | Found nat
  | Failed string py_error
  | Report nat nat
  | Unsupported string
  | Completed path
  | ProcessFailed py_error
  | PathMissing

record run =
  log :: "message list"
  after :: world
  saves :: "saved list"
  uncaught :: "py_error option"

fun process_images :: "(int \<Rightarrow> string option) \<Rightarrow> world \<Rightarrow> path \<Rightarrow> path \<Rightarrow> int \<Rightarrow> int list \<Rightarrow> string \<Rightarrow> int
                        \<Rightarrow> string list \<Rightarrow> nat \<times> message list \<times> saved list" where
  \<comment> \<open>lines 177 to 185: the count of successes, the failures printed, the files saved\<close>
  "process_images TAGS w input_path output_dir font_size color position alpha [] = (0, [], [])"
| "process_images TAGS w input_path output_dir font_size color position alpha (name # names) =
     (let (success_count, msgs, svs) =
            process_images TAGS w input_path output_dir font_size color position alpha names
      in case add_watermark TAGS (image_of w (input_path @ [name])) (PathObj (output_dir @ [name]))
                font_size color position alpha of
           Inr sv \<Rightarrow> (Suc success_count, msgs, sv # svs)
         | Inl e \<Rightarrow> (success_count, Failed name e # msgs, svs))"

definition process_directory :: "(int \<Rightarrow> string option) \<Rightarrow> string list \<Rightarrow> world \<Rightarrow> path \<Rightarrow> int \<Rightarrow> int list
                                  \<Rightarrow> string \<Rightarrow> int \<Rightarrow> run" where
  "process_directory TAGS fmts w input_path font_size color position alpha =
     (if kind w input_path = None
      then \<lparr>log = [DirMissing], after = w, saves = [], uncaught = None\<rparr>
      else
        (let output_dir = path_parent input_path @ [path_name input_path @ ''_watermark'']
         in case mkdir_exist_ok output_dir w of
              Inl e \<Rightarrow> \<lparr>log = [], after = w, saves = [], uncaught = Some e\<rparr>
            | Inr w' \<Rightarrow>
                (let files = image_files (platform w') fmts (entries w' input_path)
                 in if files = []
                    then \<lparr>log = [OutputDir output_dir, NoImages], after = w', saves = [], uncaught = None\<rparr>
                    else
                      (let (success_count, msgs, svs) =
                             process_images TAGS w' input_path output_dir font_size color position alpha files
                       in \<lparr>log = [OutputDir output_dir, Found (length files)] @ msgs
                                  @ [Report success_count (length files), OutputDir output_dir],
                           after = w', saves = svs, uncaught = None\<rparr>))))"

definition main :: "(int \<Rightarrow> string option) \<Rightarrow> string list \<Rightarrow> world \<Rightarrow> path \<Rightarrow> int \<Rightarrow> string \<Rightarrow> string \<Rightarrow> int
                     \<Rightarrow> run" where
  "main TAGS fmts w input_path font_size color_arg position alpha =
     (let color = parse_color color_arg
      in if kind w input_path = Some IsFile
         then
           (if lower (path_suffix (path_name input_path)) \<notin> set supported_formats
            then \<lparr>log = [Unsupported (path_suffix (path_name input_path))], after = w, saves = [],
                  uncaught = None\<rparr>
            else
              (let output_dir = path_parent input_path @ [path_stem (path_name input_path) @ ''_watermark''];
                   output_path = output_dir @ [path_name input_path]
               in case mkdir_exist_ok output_dir w of
                    Inl e \<Rightarrow> \<lparr>log = [], after = w, saves = [], uncaught = Some e\<rparr>
                  | Inr w' \<Rightarrow>
                      (case add_watermark TAGS (image_of w' input_path) (PathObj output_path)
                              font_size color position alpha of
                         Inr sv \<Rightarrow> \<lparr>log = [Completed output_path], after = w', saves = [sv], uncaught = None\<rparr>
                       | Inl e \<Rightarrow> \<lparr>log = [ProcessFailed e], after = w', saves = [], uncaught = None\<rparr>)))
         else if kind w input_path = Some IsDir
         then process_directory TAGS fmts w input_path font_size color position alpha
         else \<lparr>log = [PathMissing], after = w, saves = [], uncaught = None\<rparr>)"

section \<open>Reading the claims\<close>

text \<open>
  The value the search settles on, read from the priority list: the first value that is
  not a text refused by \<^verbatim>\<open>strptime\<close>, when it is a timestamp written exactly in the pattern.
\<close>

fun first_valid :: "exif_value list \<Rightarrow> string option" where
  "first_valid [] = None"
| "first_valid (v # vs) =
     (if rejected v then first_valid vs
      else (case v of Str s \<Rightarrow> if valid_timestamp s then Some s else None | NonStr \<Rightarrow> None))"

definition no_usable :: "(int \<Rightarrow> string option) \<Rightarrow> exif_read \<Rightarrow> bool" where
  \<comment> \<open>no metadata, a container that cannot be read, or no candidate that parses\<close>
  "no_usable TAGS r = (case r of Exif items \<Rightarrow> list_all (\<lambda>v. \<not> usable v) (candidates TAGS items) | _ \<Rightarrow> True)"

definition mixed_case_supported :: "string \<Rightarrow> bool" where
  \<comment> \<open>a supported extension written neither all in lower case nor all in upper case\<close>
  "mixed_case_supported ext =
     (lower ext \<in> set supported_formats \<and> ext \<notin> set supported_formats
      \<and> ext \<notin> set (map upper supported_formats))"

definition dir_output :: "path \<Rightarrow> path" where
  \<comment> \<open>the output directory of a directory run, beside the input directory\<close>
  "dir_output input_path = path_parent input_path @ [path_name input_path @ ''_watermark'']"

definition is_hex :: "char \<Rightarrow> bool" where
  "is_hex c = (c \<in> set ''0123456789abcdefABCDEF'')"

definition hex_val :: "char \<Rightarrow> nat" where
  "hex_val c = (case char_value c of Some v \<Rightarrow> v | None \<Rightarrow> 0)"

definition decimal :: "string \<Rightarrow> bool" where
  \<comment> \<open>a numeral made of decimal digits only\<close>
  "decimal s = (s \<noteq> [] \<and> list_all is_digit s \<and> length s \<le> 4300)"

definition glob_patterns :: "string list \<Rightarrow> string list" where
  \<comment> \<open>the endings that a directory run looks for, in the order of the loop of line 166\<close>
  "glob_patterns fmts = concat (map (\<lambda>ext. [ext, upper ext]) fmts)"

fun join_commas :: "string list \<Rightarrow> string" where
  "join_commas [] = []"
| "join_commas [p] = p"
| "join_commas (p # q # ps) = p @ CHR '','' # join_commas (q # ps)"

subsection \<open>Concrete inputs\<close>

definition example_TAGS :: "int \<Rightarrow> string option" where
  "example_TAGS = map_of [(306, ''DateTime''), (36867, ''DateTimeOriginal''),
                          (36868, ''DateTimeDigitized''), (271, ''Make'')]"

definition example_env :: image_env where
  "example_env = \<lparr>open_result = Inr (640, 480), exif = NoExif,
                   textbbox = (\<lambda>font_size text. (0, 7, int (length text) * 20, 36)),
                   draw_raises = (\<lambda>fill. if length fill = 4 then None else Some TypeError),
                   save_raises = None\<rparr>"

definition example_world :: world where
  "example_world = \<lparr>platform = Other,
                     kind = map_of [([''photos''], IsDir), ([''photos'', ''a.jpg''], IsFile),
                                    ([''photos'', ''b.txt''], IsFile), ([''photos'', ''c.Jpg''], IsFile),
                                    ([''notes''], IsDir), ([''notes'', ''b.txt''], IsFile),
                                    ([''shots''], IsDir), ([''shots'', ''a.jpg''], IsFile),
                                    ([''shots'', ''b.txt''], IsFile),
                                    ([''a.gif''], IsFile)],
                     entries = (\<lambda>p. if p = [''photos''] then [''a.jpg'', ''b.txt'', ''c.Jpg'']
                                     else if p = [''notes''] then [''b.txt'']
                                     else if p = [''shots''] then [''a.jpg'', ''b.txt''] else []),
                     image_of = (\<lambda>p. example_env),
                     read_only = False\<rparr>"

definition example_windows :: world where
  \<comment> \<open>the same files on Windows\<close>
  "example_windows = example_world\<lparr>platform := Windows\<rparr>"

section \<open>Digits\<close>

lemma digit_cases:
  "is_digit c \<Longrightarrow> c = CHR ''0'' \<or> c = CHR ''1'' \<or> c = CHR ''2'' \<or> c = CHR ''3'' \<or> c = CHR ''4''
     \<or> c = CHR ''5'' \<or> c = CHR ''6'' \<or> c = CHR ''7'' \<or> c = CHR ''8'' \<or> c = CHR ''9''"
  by (auto simp: is_digit_def)

lemma digit_not_colon: "is_digit c \<Longrightarrow> c \<noteq> CHR '':''"
  by (auto simp: is_digit_def)

lemma digit_not_space: "is_digit c \<Longrightarrow> \<not> is_space c"
  by (auto simp: is_digit_def is_space_def)

lemma digit_val_lt: "is_digit c \<Longrightarrow> digit_val c < 10"
  by (auto simp: is_digit_def digit_val_def)

lemma digit_val_pos: "is_digit c \<Longrightarrow> c \<noteq> CHR ''0'' \<Longrightarrow> 1 \<le> digit_val c"
  by (auto simp: is_digit_def digit_val_def)

lemma digit_char_val: "is_digit c \<Longrightarrow> digit_char (digit_val c) = c"
  by (auto simp: is_digit_def digit_val_def digit_char_def)

lemma digit_char_small: "n < 10 \<Longrightarrow> digit_char n = ''0123456789'' ! n"
  by (simp add: digit_char_def)

section \<open>The pattern, field by field\<close>

lemma from_S_strict:
  assumes "is_digit a" "is_digit b" "10 * digit_val a + digit_val b \<le> 59"
  shows "\<exists>more. rx_from_S Y m d H M [a, b] = ((Y, m, d, H, M, 10 * digit_val a + digit_val b), []) # more"
  using digit_cases [OF assms(1)] digit_cases [OF assms(2)] assms(3)
  by (elim disjE; simp add: rx_from_S_def rx_S_def two_def one_def in_range_def is_digit_def digit_val_def)

lemma from_M_strict:
  assumes "is_digit a" "is_digit b" "10 * digit_val a + digit_val b \<le> 59"
  shows "rx_from_M Y m d H (a # b # CHR '':'' # r) = rx_from_S Y m d H (10 * digit_val a + digit_val b) r"
  using digit_cases [OF assms(1)] digit_cases [OF assms(2)] assms(3)
  by (elim disjE; simp add: rx_from_M_def rx_M_def two_def one_def lit_def in_range_def is_digit_def digit_val_def)

lemma from_H_strict:
  assumes "is_digit a" "is_digit b" "10 * digit_val a + digit_val b \<le> 23"
  shows "rx_from_H Y m d (a # b # CHR '':'' # r) = rx_from_M Y m d (10 * digit_val a + digit_val b) r"
  using digit_cases [OF assms(1)] digit_cases [OF assms(2)] assms(3)
  by (elim disjE; simp add: rx_from_H_def rx_H_def two_def one_def lit_def in_range_def is_digit_def digit_val_def)

lemma from_d_strict:
  assumes "is_digit a" "is_digit b" "1 \<le> 10 * digit_val a + digit_val b"
    "10 * digit_val a + digit_val b \<le> 31" "is_digit h"
  shows "rx_from_d Y m (a # b # CHR '' '' # h # r) = rx_from_H Y m (10 * digit_val a + digit_val b) (h # r)"
  using digit_cases [OF assms(1)] digit_cases [OF assms(2)] assms(3,4) digit_not_space [OF assms(5)]
  by (elim disjE; simp add: rx_from_d_def rx_d_def two_def one_def space_one_def in_range_def
        is_digit_def digit_val_def is_space_def)

lemma from_m_strict:
  assumes "is_digit a" "is_digit b" "1 \<le> 10 * digit_val a + digit_val b"
    "10 * digit_val a + digit_val b \<le> 12"
  shows "rx_from_m Y (a # b # CHR '':'' # r) = rx_from_d Y (10 * digit_val a + digit_val b) r"
  using digit_cases [OF assms(1)] digit_cases [OF assms(2)] assms(3,4)
  by (elim disjE; simp add: rx_from_m_def rx_m_def two_def one_def lit_def in_range_def is_digit_def digit_val_def)

lemma match_Y_strict:
  assumes "is_digit a" "is_digit b" "is_digit c" "is_digit d"
  shows "rx_match (a # b # c # d # CHR '':'' # r)
       = rx_from_m (1000 * digit_val a + 100 * digit_val b + 10 * digit_val c + digit_val d) r"
  using assms by (simp add: rx_match_def rx_Y_def lit_def)

lemma days_in_month_le: "days_in_month y m \<le> 31"
  by (simp add: days_in_month_def)

section \<open>Printing the date\<close>

lemma pad2_digits:
  assumes "is_digit a" "is_digit b"
  shows "pad2 (10 * digit_val a + digit_val b) = [a, b]"
proof -
  have "(10 * digit_val a + digit_val b) div 10 mod 10 = digit_val a"
    and "(10 * digit_val a + digit_val b) mod 10 = digit_val b"
    using digit_val_lt [OF assms(1)] digit_val_lt [OF assms(2)] by simp_all
  then show ?thesis
    by (simp add: pad2_def digit_char_val assms)
qed

lemma dec_small: "n < 10 \<Longrightarrow> dec n = [digit_char n]"
  by (simp add: dec.simps)

lemma dec_step: "d < 10 \<Longrightarrow> 0 < q \<Longrightarrow> dec (10 * q + d) = dec q @ [digit_char d]"
  by (subst dec.simps) simp

lemma dec_four_digits:
  assumes "is_digit a" "is_digit b" "is_digit c" "is_digit d" "a \<noteq> CHR ''0''"
  shows "dec (1000 * digit_val a + 100 * digit_val b + 10 * digit_val c + digit_val d) = [a, b, c, d]"
proof -
  let ?A = "digit_val a" and ?B = "digit_val b" and ?C = "digit_val c" and ?D = "digit_val d"
  have lt: "?A < 10" "?B < 10" "?C < 10" "?D < 10"
    using assms by (simp_all add: digit_val_lt)
  have pos: "0 < ?A"
    using digit_val_pos [OF assms(1) assms(5)] by simp
  have e3: "1000 * ?A + 100 * ?B + 10 * ?C + ?D = 10 * (100 * ?A + 10 * ?B + ?C) + ?D"
    by simp
  have e2: "100 * ?A + 10 * ?B + ?C = 10 * (10 * ?A + ?B) + ?C"
    by simp
  have "dec (10 * ?A + ?B) = [digit_char ?A, digit_char ?B]"
    using dec_step [of ?B ?A] lt pos by (simp add: dec_small)
  then have "dec (100 * ?A + 10 * ?B + ?C) = [digit_char ?A, digit_char ?B, digit_char ?C]"
    using dec_step [of ?C "10 * ?A + ?B"] lt pos by (simp only: e2) simp
  then have "dec (1000 * ?A + 100 * ?B + 10 * ?C + ?D)
               = [digit_char ?A, digit_char ?B, digit_char ?C, digit_char ?D]"
    using dec_step [of ?D "100 * ?A + 10 * ?B + ?C"] lt pos by (simp only: e3) simp
  then show ?thesis
    by (simp add: digit_char_val assms)
qed

section \<open>A timestamp in the pattern is parsed and printed back\<close>

lemma strptime_fields:
  assumes dg: "is_digit y1" "is_digit y2" "is_digit y3" "is_digit y4" "is_digit m1" "is_digit m2"
      "is_digit d1" "is_digit d2" "is_digit h1" "is_digit h2" "is_digit n1" "is_digit n2"
      "is_digit s1" "is_digit s2"
    and y: "y1 \<noteq> CHR ''0''"
    and m: "1 \<le> 10 * digit_val m1 + digit_val m2" "10 * digit_val m1 + digit_val m2 \<le> 12"
    and d: "1 \<le> 10 * digit_val d1 + digit_val d2"
      "10 * digit_val d1 + digit_val d2
         \<le> days_in_month (1000 * digit_val y1 + 100 * digit_val y2 + 10 * digit_val y3 + digit_val y4)
              (10 * digit_val m1 + digit_val m2)"
    and h: "10 * digit_val h1 + digit_val h2 \<le> 23"
    and n: "10 * digit_val n1 + digit_val n2 \<le> 59"
    and s: "10 * digit_val s1 + digit_val s2 \<le> 59"
  shows "\<exists>dt. strptime (Str [y1, y2, y3, y4, CHR '':'', m1, m2, CHR '':'', d1, d2, CHR '' '',
                              h1, h2, CHR '':'', n1, n2, CHR '':'', s1, s2]) = Inr dt
            \<and> strftime dt = [y1, y2, y3, y4, CHR ''-'', m1, m2, CHR ''-'', d1, d2]"
proof -
  let ?Y = "1000 * digit_val y1 + 100 * digit_val y2 + 10 * digit_val y3 + digit_val y4"
  let ?m = "10 * digit_val m1 + digit_val m2"
  let ?d = "10 * digit_val d1 + digit_val d2"
  let ?H = "10 * digit_val h1 + digit_val h2"
  let ?M = "10 * digit_val n1 + digit_val n2"
  let ?S = "10 * digit_val s1 + digit_val s2"
  let ?s = "[y1, y2, y3, y4, CHR '':'', m1, m2, CHR '':'', d1, d2, CHR '' '',
             h1, h2, CHR '':'', n1, n2, CHR '':'', s1, s2]"
  have d31: "?d \<le> 31"
    using d(2) days_in_month_le [of ?Y ?m] by linarith
  obtain more where S: "rx_from_S ?Y ?m ?d ?H ?M [s1, s2] = ((?Y, ?m, ?d, ?H, ?M, ?S), []) # more"
    using from_S_strict [OF dg(13) dg(14) s] by blast
  have "rx_match ?s = rx_from_m ?Y [m1, m2, CHR '':'', d1, d2, CHR '' '', h1, h2, CHR '':'', n1, n2, CHR '':'', s1, s2]"
    by (rule match_Y_strict [OF dg(1-4)])
  also have "\<dots> = rx_from_d ?Y ?m [d1, d2, CHR '' '', h1, h2, CHR '':'', n1, n2, CHR '':'', s1, s2]"
    by (rule from_m_strict [OF dg(5) dg(6) m])
  also have "\<dots> = rx_from_H ?Y ?m ?d [h1, h2, CHR '':'', n1, n2, CHR '':'', s1, s2]"
    by (rule from_d_strict [OF dg(7) dg(8) d(1) d31 dg(9)])
  also have "\<dots> = rx_from_M ?Y ?m ?d ?H [n1, n2, CHR '':'', s1, s2]"
    by (rule from_H_strict [OF dg(9) dg(10) h])
  also have "\<dots> = rx_from_S ?Y ?m ?d ?H ?M [s1, s2]"
    by (rule from_M_strict [OF dg(11) dg(12) n])
  finally have match: "rx_match ?s = ((?Y, ?m, ?d, ?H, ?M, ?S), []) # more"
    using S by simp
  have Ypos: "1 \<le> ?Y"
    using digit_val_pos [OF dg(1) y] by simp
  have Yle: "?Y \<le> 9999"
    using digit_val_lt [OF dg(1)] digit_val_lt [OF dg(2)] digit_val_lt [OF dg(3)] digit_val_lt [OF dg(4)]
    by simp
  let ?dt = "\<lparr>dt_year = ?Y, dt_month = ?m, dt_day = ?d, dt_hour = ?H, dt_minute = ?M, dt_second = ?S\<rparr>"
  have "make_datetime (?Y, ?m, ?d, ?H, ?M, ?S) = Inr ?dt"
    using Ypos Yle m d h n s by (simp add: make_datetime_def)
  then have parse: "strptime (Str ?s) = Inr ?dt"
    by (simp add: strptime_def match)
  have "strftime ?dt = [y1, y2, y3, y4, CHR ''-'', m1, m2, CHR ''-'', d1, d2]"
    by (simp add: strftime_def dec_four_digits [OF dg(1-4) y] pad2_digits [OF dg(5) dg(6)]
          pad2_digits [OF dg(7) dg(8)])
  with parse show ?thesis
    by blast
qed

lemma strptime_valid:
  assumes "valid_timestamp s"
  shows "\<exists>dt. strptime (Str s) = Inr dt \<and> strftime dt = date_portion s"
proof -
  from assms have "length s = 19"
    by (simp add: valid_timestamp_def)
  then obtain a0 a1 a2 a3 a4 a5 a6 a7 a8 a9 a10 a11 a12 a13 a14 a15 a16 a17 a18
    where s: "s = [a0, a1, a2, a3, a4, a5, a6, a7, a8, a9, a10, a11, a12, a13, a14, a15, a16, a17, a18]"
    by (auto simp: eval_nat_numeral length_Suc_conv)
  from assms have v: "a4 = CHR '':''" "a7 = CHR '':''" "a10 = CHR '' ''" "a13 = CHR '':''" "a16 = CHR '':''"
      "is_digit a0" "is_digit a1" "is_digit a2" "is_digit a3" "is_digit a5" "is_digit a6"
      "is_digit a8" "is_digit a9" "is_digit a11" "is_digit a12" "is_digit a14" "is_digit a15"
      "is_digit a17" "is_digit a18" "a0 \<noteq> CHR ''0''"
      "1 \<le> 10 * digit_val a5 + digit_val a6" "10 * digit_val a5 + digit_val a6 \<le> 12"
      "1 \<le> 10 * digit_val a8 + digit_val a9"
      "10 * digit_val a8 + digit_val a9
         \<le> days_in_month (1000 * digit_val a0 + 100 * digit_val a1 + 10 * digit_val a2 + digit_val a3)
              (10 * digit_val a5 + digit_val a6)"
      "10 * digit_val a11 + digit_val a12 \<le> 23" "10 * digit_val a14 + digit_val a15 \<le> 59"
      "10 * digit_val a17 + digit_val a18 \<le> 59"
    unfolding s valid_timestamp_def num2_def num4_def by simp_all
  have s': "s = [a0, a1, a2, a3, CHR '':'', a5, a6, CHR '':'', a8, a9, CHR '' '',
                 a11, a12, CHR '':'', a14, a15, CHR '':'', a17, a18]"
    using s v(1-5) by simp
  have dp: "date_portion [a0, a1, a2, a3, CHR '':'', a5, a6, CHR '':'', a8, a9, CHR '' '',
                          a11, a12, CHR '':'', a14, a15, CHR '':'', a17, a18]
              = [a0, a1, a2, a3, CHR ''-'', a5, a6, CHR ''-'', a8, a9]"
    using digit_not_colon [OF v(6)] digit_not_colon [OF v(7)] digit_not_colon [OF v(8)]
      digit_not_colon [OF v(9)] digit_not_colon [OF v(10)] digit_not_colon [OF v(11)]
      digit_not_colon [OF v(12)] digit_not_colon [OF v(13)]
    by (simp add: date_portion_def)
  show ?thesis
    unfolding s' dp
    by (rule strptime_fields [OF v(6-9) v(10,11) v(12,13) v(14,15) v(16,17) v(18,19) v(20) v(21,22)
          v(23,24) v(25) v(26) v(27)])
qed

section \<open>The search is a walk down the priority list\<close>

lemma scan_tag_try: "scan_tag TAGS name items = try_values (values_of TAGS name items)"
proof (induction items)
  case Nil
  show ?case by (simp add: values_of_def)
next
  case (Cons item items)
  obtain tag_id v where item: "item = (tag_id, v)"
    by (cases item)
  show ?case
    using Cons.IH by (simp add: item values_of_def split: sum.splits py_error.splits)
qed

lemma try_values_append:
  "try_values (xs @ ys) = (case try_values xs of Inr None \<Rightarrow> try_values ys | r \<Rightarrow> r)"
  by (induction xs) (simp_all split: sum.splits py_error.splits option.splits)

lemma search_exif_try: "search_exif TAGS items = try_values (candidates TAGS items)"
  by (simp add: search_exif_def date_tags_def candidates_def scan_tag_try try_values_append
        split: sum.splits option.splits)

lemma get_shooting_date_try:
  "get_shooting_date TAGS (Exif items)
     = (case try_values (candidates TAGS items) of Inl e \<Rightarrow> None | Inr d \<Rightarrow> d)"
  by (simp add: get_shooting_date_def search_exif_try)

lemma try_values_first_valid:
  "first_valid vs = Some s \<Longrightarrow> try_values vs = Inr (Some (date_portion s))"
proof (induction vs)
  case Nil
  then show ?case by simp
next
  case (Cons v vs)
  show ?case
  proof (cases "rejected v")
    case True
    with Cons show ?thesis by (simp add: rejected_def)
  next
    case False
    with Cons.prems obtain t where v: "v = Str t" and t: "valid_timestamp t" and st: "s = t"
      by (cases v) (simp_all split: if_splits)
    from strptime_valid [OF t] obtain dt where "strptime (Str t) = Inr dt" "strftime dt = date_portion t"
      by blast
    then show ?thesis by (simp add: v st)
  qed
qed

lemma try_values_non_text:
  "dropWhile rejected vs = NonStr # rest \<Longrightarrow> try_values vs = Inl TypeError"
proof (induction vs)
  case Nil
  then show ?case by simp
next
  case (Cons v vs)
  show ?case
  proof (cases "rejected v")
    case True
    with Cons show ?thesis by (simp add: rejected_def)
  next
    case False
    with Cons.prems have "v = NonStr" by simp
    then show ?thesis by (simp add: strptime_def)
  qed
qed

lemma try_values_none_usable:
  "list_all (\<lambda>v. \<not> usable v) vs \<Longrightarrow> try_values vs = Inr None \<or> (\<exists>e. try_values vs = Inl e)"
  by (induction vs) (auto simp: usable_def split: sum.splits py_error.splits)




section \<open>Claims about \<^verbatim>\<open>get_shooting_date\<close>\<close>

text \<open>
  C1, as amended. When the first candidate value in priority order that is not a text refused
  by \<^verbatim>\<open>strptime\<close> is a text written exactly as \<^verbatim>\<open>YYYY:MM:DD HH:MM:SS\<close> that names a day of
  the calendar and a time of day in a year from 1000 on, \<^verbatim>\<open>get_shooting_date\<close> returns its
  date portion unchanged, written \<^verbatim>\<open>YYYY-MM-DD\<close>: every text before it that \<^verbatim>\<open>strptime\<close>
  refuses has been skipped and the next candidate tried. When that first candidate is not
  a text, the \<open>TypeError\<close> it raises ends the search and the result is absence.
\<close>

theorem get_shooting_date_first_valid:
  "(first_valid (candidates TAGS items) = Some v
      \<longrightarrow> get_shooting_date TAGS (Exif items) = Some (date_portion v))
   \<and> (dropWhile rejected (candidates TAGS items) = NonStr # rest
      \<longrightarrow> get_shooting_date TAGS (Exif items) = None)"
  by (simp add: get_shooting_date_try try_values_first_valid try_values_non_text)

theorem get_shooting_date_first_valid_witness:
  "first_valid (candidates example_TAGS
       [(36867, Str ''2023:10:15 14:30:25''), (271, Str ''Camera''), (306, Str ''2023-10-15'')])
     = Some ''2023:10:15 14:30:25''
   \<and> get_shooting_date example_TAGS
       (Exif [(36867, Str ''2023:10:15 14:30:25''), (271, Str ''Camera''), (306, Str ''2023-10-15'')])
     = Some ''2023-10-15''
   \<and> dropWhile rejected (candidates example_TAGS [(306, Str ''soon''), (36867, NonStr)]) = NonStr # []
   \<and> get_shooting_date example_TAGS (Exif [(306, Str ''soon''), (36867, NonStr)]) = None"
proof -
  let ?items = "[(36867, Str ''2023:10:15 14:30:25''), (271, Str ''Camera''), (306, Str ''2023-10-15'')]"
  let ?bad = "[(306, Str ''soon''), (36867, NonStr)]"
  have h1: "first_valid (candidates example_TAGS ?items) = Some ''2023:10:15 14:30:25''"
    by code_simp
  have h2: "dropWhile rejected (candidates example_TAGS ?bad) = NonStr # []"
    by code_simp
  have dp: "date_portion ''2023:10:15 14:30:25'' = ''2023-10-15''"
    by code_simp
  from get_shooting_date_first_valid [of example_TAGS ?items "''2023:10:15 14:30:25''" "[]"] h1 dp
  have r1: "get_shooting_date example_TAGS (Exif ?items) = Some ''2023-10-15''"
    by simp
  from get_shooting_date_first_valid [of example_TAGS ?bad "''x''" "[]"] h2
  have r2: "get_shooting_date example_TAGS (Exif ?bad) = None"
    by simp
  from h1 h2 r1 r2 show ?thesis
    by simp
qed

text \<open>
  C1 as it is written fails: a mapping holds a timestamp tag with a value in the pattern, yet
  the value before it in priority order is not a text, it is not skipped, and the result
  is absence.
\<close>

theorem get_shooting_date_non_text_counterexample:
  "Str ''2023:10:15 14:30:25'' \<in> set (candidates example_TAGS [(306, NonStr), (36868, Str ''2023:10:15 14:30:25'')])
   \<and> valid_timestamp ''2023:10:15 14:30:25''
   \<and> get_shooting_date example_TAGS (Exif [(306, NonStr), (36868, Str ''2023:10:15 14:30:25'')]) = None"
  by code_simp






section \<open>Claims about \<^verbatim>\<open>add_watermark\<close>\<close>

lemma get_shooting_date_no_usable: "no_usable TAGS r \<Longrightarrow> get_shooting_date TAGS r = None"
proof (cases r)
  case (Exif items)
  assume "no_usable TAGS r"
  then have "list_all (\<lambda>v. \<not> usable v) (candidates TAGS items)"
    by (simp add: no_usable_def Exif)
  from try_values_none_usable [OF this] show ?thesis
    by (auto simp: Exif get_shooting_date_try)
qed (simp_all add: get_shooting_date_def)

lemma add_watermark_str:
  assumes "open_result env = Inr (w, h)"
    and "draw_raises env (color @ [alpha]) = None"
    and "save_raises env = None"
    and "textbbox env font_size (watermark_text (get_shooting_date TAGS (exif env))) = (x0, y0, x1, y1)"
  shows "add_watermark TAGS env (PathStr out) font_size color position alpha
       = Inr \<lparr>sv_path = PathStr out,
               sv_text = watermark_text (get_shooting_date TAGS (exif env)),
               sv_xy = anchor position w h (x1 - x0) (y1 - y0),
               sv_fill = color @ [alpha],
               sv_mode = (if needs_flatten out then RGB else RGBA),
               sv_quality = 95\<rparr>"
  using assms by (simp add: add_watermark_def Let_def)

lemma add_watermark_success:
  assumes "add_watermark TAGS env out font_size color position alpha = Inr sv"
  shows "\<exists>w h x0 y0 x1 y1 s. open_result env = Inr (w, h)
           \<and> textbbox env font_size (watermark_text (get_shooting_date TAGS (exif env))) = (x0, y0, x1, y1)
           \<and> out = PathStr s
           \<and> sv = \<lparr>sv_path = PathStr s,
                    sv_text = watermark_text (get_shooting_date TAGS (exif env)),
                    sv_xy = anchor position w h (x1 - x0) (y1 - y0),
                    sv_fill = color @ [alpha],
                    sv_mode = (if needs_flatten s then RGB else RGBA),
                    sv_quality = 95\<rparr>"
  using assms
  by (auto simp: add_watermark_def Let_def split: sum.splits prod.splits option.splits path_arg.splits)

lemma add_watermark_path_object:
  "add_watermark TAGS env (PathObj p) font_size color position alpha \<noteq> Inr sv"
  using add_watermark_success [of TAGS env "PathObj p" font_size color position alpha sv] by auto

text \<open>
  C3. For an image with no usable timestamp tag (no metadata, a container that cannot be
  read, or no candidate value that parses) \<^verbatim>\<open>get_shooting_date\<close> returns absence and
  raises nothing, the text to draw is the placeholder, and the watermarking goes on: when
  the image opens and drawing and saving succeed, the text of the saved watermark is the
  placeholder.
\<close>

theorem absence_gives_placeholder:
  assumes "no_usable TAGS (exif env)"
  shows "get_shooting_date TAGS (exif env) = None
       \<and> watermark_text (get_shooting_date TAGS (exif env)) = placeholder
       \<and> (open_result env = Inr (w, h) \<and> draw_raises env (color @ [alpha]) = None \<and> save_raises env = None
            \<longrightarrow> (\<exists>sv. add_watermark TAGS env (PathStr out) font_size color position alpha = Inr sv
                       \<and> sv_text sv = placeholder))"
proof -
  have none: "get_shooting_date TAGS (exif env) = None"
    using assms by (rule get_shooting_date_no_usable)
  then have ph: "watermark_text (get_shooting_date TAGS (exif env)) = placeholder"
    by (simp add: watermark_text_def)
  obtain x0 y0 x1 y1 where bbox: "textbbox env font_size placeholder = (x0, y0, x1, y1)"
    by (cases "textbbox env font_size placeholder")
  show ?thesis
    using none ph add_watermark_str [of env w h color alpha font_size TAGS x0 y0 x1 y1 out position] bbox
    by auto
qed

theorem absence_gives_placeholder_witness:
  "no_usable example_TAGS (exif (example_env\<lparr>exif := Exif [(306, Str ''0000:00:00 00:00:00''), (36867, NonStr)]\<rparr>))
   \<and> get_shooting_date example_TAGS (Exif [(306, Str ''0000:00:00 00:00:00''), (36867, NonStr)]) = None
   \<and> (\<exists>sv. add_watermark example_TAGS
              (example_env\<lparr>exif := Exif [(306, Str ''0000:00:00 00:00:00''), (36867, NonStr)]\<rparr>)
              (PathStr ''out/a.png'') 36 white ''center'' 204 = Inr sv
          \<and> sv_text sv = placeholder)"
proof -
  let ?env = "example_env\<lparr>exif := Exif [(306, Str ''0000:00:00 00:00:00''), (36867, NonStr)]\<rparr>"
  have h: "no_usable example_TAGS (exif ?env)"
    by code_simp
  have pre: "open_result ?env = Inr (640, 480)" "draw_raises ?env (white @ [204]) = None" "save_raises ?env = None"
    by (simp_all add: example_env_def white_def)
  from absence_gives_placeholder [OF h, of 640 480 white 204 "''out/a.png''" 36 "''center''"] pre h
  show ?thesis
    by simp
qed

text \<open>
  C4. The anchor is 20 units from the relevant edges for the four corners and the
  geometric centre for \<^verbatim>\<open>center\<close>; nothing is clamped, so a coordinate is negative as soon
  as the text is larger than the image less the margin. The position of a saved watermark
  is that anchor, for the width and height of the text's bounding box.
\<close>

theorem anchor_margin_and_centering:
  "anchor ''top-left'' w h tw th = (20, 20)
   \<and> anchor ''top-right'' w h tw th = (w - tw - 20, 20)
   \<and> anchor ''center'' w h tw th = ((w - tw) div 2, (h - th) div 2)
   \<and> anchor ''bottom-left'' w h tw th = (20, h - th - 20)
   \<and> anchor ''bottom-right'' w h tw th = (w - tw - 20, h - th - 20)
   \<and> (fst (anchor ''bottom-right'' w h tw th) < 0) = (w - 20 < tw)
   \<and> (snd (anchor ''bottom-right'' w h tw th) < 0) = (h - 20 < th)
   \<and> (open_result env = Inr (w, h)
        \<and> textbbox env font_size (watermark_text (get_shooting_date TAGS (exif env))) = (x0, y0, x1, y1)
        \<and> add_watermark TAGS env out font_size color position alpha = Inr sv
      \<longrightarrow> sv_xy sv = anchor position w h (x1 - x0) (y1 - y0))"
proof -
  have saved: "sv_xy sv = anchor position w h (x1 - x0) (y1 - y0)"
    if "open_result env = Inr (w, h)"
      and "textbbox env font_size (watermark_text (get_shooting_date TAGS (exif env))) = (x0, y0, x1, y1)"
      and "add_watermark TAGS env out font_size color position alpha = Inr sv"
    using add_watermark_success [OF that(3)] that(1,2) by auto
  have corners: "anchor ''top-left'' w h tw th = (20, 20)"
    "anchor ''top-right'' w h tw th = (w - tw - 20, 20)"
    "anchor ''center'' w h tw th = ((w - tw) div 2, (h - th) div 2)"
    "anchor ''bottom-left'' w h tw th = (20, h - th - 20)"
    "anchor ''bottom-right'' w h tw th = (w - tw - 20, h - th - 20)"
    by (simp_all add: anchor_def)
  have negative: "(fst (anchor ''bottom-right'' w h tw th) < 0) = (w - 20 < tw)"
    "(snd (anchor ''bottom-right'' w h tw th) < 0) = (h - 20 < th)"
    unfolding corners by auto
  from saved corners negative show ?thesis
    by blast
qed

theorem anchor_margin_and_centering_witness:
  "anchor ''bottom-right'' 640 480 240 29 = (380, 431)
   \<and> anchor ''center'' 640 480 240 29 = (200, 225)
   \<and> anchor ''bottom-right'' 100 40 240 29 = (- 160, - 9)
   \<and> open_result example_env = Inr (640, 480)
   \<and> textbbox example_env 36 (watermark_text (get_shooting_date example_TAGS (exif example_env)))
       = (0, 7, 240, 36)
   \<and> (\<exists>sv. add_watermark example_TAGS example_env (PathStr ''out/a.png'') 36 white ''bottom-right'' 204 = Inr sv
          \<and> sv_xy sv = (380, 431))"
proof -
  have a: "open_result example_env = Inr (640, 480)"
    by (simp add: example_env_def)
  have b: "textbbox example_env 36 (watermark_text (get_shooting_date example_TAGS (exif example_env)))
             = (0, 7, 240, 36)"
    by code_simp
  have c: "add_watermark example_TAGS example_env (PathStr ''out/a.png'') 36 white ''bottom-right'' 204
             = Inr \<lparr>sv_path = PathStr ''out/a.png'', sv_text = placeholder, sv_xy = (380, 431),
                    sv_fill = [255, 255, 255, 204], sv_mode = RGBA, sv_quality = 95\<rparr>"
    by code_simp
  have d: "anchor ''bottom-right'' 640 480 240 29 = (380, 431)"
    "anchor ''center'' 640 480 240 29 = (200, 225)"
    "anchor ''bottom-right'' 100 40 240 29 = (- 160, - 9)"
    by code_simp+
  from anchor_margin_and_centering [of 640 480 240 29 example_env 36 example_TAGS 0 7 240 36
      "PathStr ''out/a.png''" white "''bottom-right''" 204
      "\<lparr>sv_path = PathStr ''out/a.png'', sv_text = placeholder, sv_xy = (380, 431),
        sv_fill = [255, 255, 255, 204], sv_mode = RGBA, sv_quality = 95\<rparr>"] a b c d
  show ?thesis
    by simp
qed

text \<open>
  C8. With a \<^verbatim>\<open>str\<close> as output path the code does what the claim says: the result is
  converted to RGB when the lower-cased name ends with \<^verbatim>\<open>.jpg\<close> or \<^verbatim>\<open>.jpeg\<close> and is
  saved as RGBA otherwise.
\<close>

lemma add_watermark_flattens_for_str:
  assumes "add_watermark TAGS env (PathStr out) font_size color position alpha = Inr sv"
  shows "sv_mode sv = (if needs_flatten out then RGB else RGBA)"
  using add_watermark_success [OF assms] by auto

text \<open>
  C8, on the program as it is run. Both callers pass a \<^verbatim>\<open>pathlib.Path\<close>, line 133 calls
  \<^verbatim>\<open>output_path.lower()\<close> on it and raises \<open>AttributeError\<close> after the compositing: for a
  readable JPEG given as single file nothing is converted and nothing is written, and in a
  directory run every file fails.
\<close>

theorem main_raises_on_path_object:
  "log (main example_TAGS supported_formats example_world [''photos'', ''a.jpg''] 36 ''white'' ''bottom-right'' 204)
     = [ProcessFailed AttributeError]
   \<and> saves (main example_TAGS supported_formats example_world [''photos'', ''a.jpg''] 36 ''white'' ''bottom-right'' 204)
     = []
   \<and> log (main example_TAGS supported_formats example_world [''photos''] 36 ''white'' ''bottom-right'' 204)
     = [OutputDir [''photos_watermark''], Found 1, Failed ''a.jpg'' AttributeError, Report 0 1,
        OutputDir [''photos_watermark'']]"
  by code_simp

section \<open>Claims about \<^verbatim>\<open>main\<close> and \<^verbatim>\<open>process_directory\<close>\<close>

text \<open>
  C7. A single file whose extension, in lower case, is not one of the supported ones is
  reported as unsupported, and the run ends there: nothing is written and the file system
  is as before, no output directory has been created.
\<close>

theorem unsupported_single_file_rejected:
  assumes "kind w input_path = Some IsFile"
    and "lower (path_suffix (path_name input_path)) \<notin> set supported_formats"
  shows "main TAGS fmts w input_path font_size color_arg position alpha
       = \<lparr>log = [Unsupported (path_suffix (path_name input_path))], after = w, saves = [], uncaught = None\<rparr>"
  using assms by (simp add: main_def)

theorem unsupported_single_file_rejected_witness:
  "kind example_world [''a.gif''] = Some IsFile
   \<and> lower (path_suffix (path_name [''a.gif''])) \<notin> set supported_formats
   \<and> main example_TAGS supported_formats example_world [''a.gif''] 36 ''white'' ''bottom-right'' 204
       = \<lparr>log = [Unsupported ''.gif''], after = example_world, saves = [], uncaught = None\<rparr>"
proof -
  have a: "kind example_world [''a.gif''] = Some IsFile"
    by (simp add: example_world_def)
  have b: "lower (path_suffix (path_name [''a.gif''])) \<notin> set supported_formats"
    by code_simp
  have c: "path_suffix (path_name [''a.gif'']) = ''.gif''"
    by code_simp
  from unsupported_single_file_rejected [OF a b, of example_TAGS supported_formats 36 "''white''"
      "''bottom-right''" 204] a b c
  show ?thesis
    by simp
qed

text \<open>
  C9. In a directory run the output directory is created before the input directory is
  listed: when no supported file is found the run reports so and stops, and the output
  directory exists all the same; where it did not exist before, the file system has changed.
\<close>

lemma mkdir_exist_ok_creates: "mkdir_exist_ok p w = Inr w' \<Longrightarrow> kind w' p = Some IsDir"
  by (auto simp: mkdir_exist_ok_def split: option.splits node.splits if_splits)

theorem output_directory_created_first:
  assumes "kind w input_path \<noteq> None"
    and "mkdir_exist_ok (dir_output input_path) w = Inr w'"
    and "image_files (platform w') fmts (entries w' input_path) = []"
  shows "process_directory TAGS fmts w input_path font_size color position alpha
           = \<lparr>log = [OutputDir (dir_output input_path), NoImages], after = w', saves = [], uncaught = None\<rparr>
       \<and> kind w' (dir_output input_path) = Some IsDir
       \<and> (kind w (dir_output input_path) = None \<longrightarrow> w' \<noteq> w)"
proof -
  have created: "kind w' (dir_output input_path) = Some IsDir"
    using assms(2) by (rule mkdir_exist_ok_creates)
  have "process_directory TAGS fmts w input_path font_size color position alpha
          = \<lparr>log = [OutputDir (dir_output input_path), NoImages], after = w', saves = [], uncaught = None\<rparr>"
    using assms by (simp add: process_directory_def dir_output_def Let_def)
  with created show ?thesis
    by auto
qed

theorem output_directory_created_first_witness:
  "kind example_world [''notes''] \<noteq> None
   \<and> kind example_world (dir_output [''notes'']) = None
   \<and> log (process_directory example_TAGS supported_formats example_world [''notes''] 36 white ''bottom-right'' 204)
       = [OutputDir [''notes_watermark''], NoImages]
   \<and> kind (after (process_directory example_TAGS supported_formats example_world [''notes''] 36 white
                    ''bottom-right'' 204)) [''notes_watermark'']
       = Some IsDir"
proof -
  let ?w' = "example_world\<lparr>kind := (kind example_world)([''notes_watermark''] \<mapsto> IsDir),
                           entries := (entries example_world)([] := entries example_world [] @ [''notes_watermark''])\<rparr>"
  have a: "kind example_world [''notes''] \<noteq> None"
    by (simp add: example_world_def)
  have n: "kind example_world (dir_output [''notes'']) = None"
    by (simp add: example_world_def dir_output_def path_parent_def path_name_def)
  have d: "dir_output [''notes''] = [''notes_watermark'']"
    by (simp add: dir_output_def path_parent_def path_name_def)
  have b: "mkdir_exist_ok (dir_output [''notes'']) example_world = Inr ?w'"
    using n by (simp add: mkdir_exist_ok_def d path_parent_def path_name_def example_world_def)
  have e: "entries ?w' [''notes''] = [''b.txt'']"
    by (simp add: example_world_def)
  have pf: "platform ?w' = Other"
    by (simp add: example_world_def)
  have c: "image_files (platform ?w') supported_formats (entries ?w' [''notes'']) = []"
    unfolding e pf by code_simp
  from output_directory_created_first [OF a b c, of example_TAGS 36 white "''bottom-right''" 204] a n d
  show ?thesis
    by simp
qed

section \<open>Which files a directory run picks up\<close>

lemma upper_supported:
  "map upper supported_formats = [''.JPG'', ''.JPEG'', ''.PNG'', ''.BMP'', ''.TIFF'', ''.TIF'']"
  by code_simp

lemma lower_supported: "map lower supported_formats = supported_formats"
  by code_simp

lemma glob_patterns_supported:
  "glob_patterns supported_formats
     = [''.jpg'', ''.JPG'', ''.jpeg'', ''.JPEG'', ''.png'', ''.PNG'', ''.bmp'', ''.BMP'',
        ''.tiff'', ''.TIFF'', ''.tif'', ''.TIF'']"
  by code_simp

lemma set_glob_patterns: "set (glob_patterns fmts) = set fmts \<union> set (map upper fmts)"
  by (induction fmts) (auto simp: glob_patterns_def)

lemma image_files_patterns:
  "pf \<noteq> Windows \<Longrightarrow>
     image_files pf fmts names = concat (map (\<lambda>p. filter (suffix p) names) (glob_patterns fmts))"
  by (induction fmts) (simp_all add: image_files_def glob_patterns_def glob_suffix_def)

lemma image_files_order:
  assumes "mset fmts = mset fmts'"
  shows "mset (image_files pf fmts names) = mset (image_files pf fmts' names)"
proof -
  let ?g = "\<lambda>ext. mset (glob_suffix pf ext names @ glob_suffix pf (upper ext) names)"
  have sum: "mset (image_files pf l names) = sum_mset (image_mset ?g (mset l))" for l
    by (induction l) (simp_all add: image_files_def)
  show ?thesis
    by (simp only: sum assms)
qed

lemma pattern_shape:
  assumes "p \<in> set (glob_patterns supported_formats)"
  shows "\<exists>r. p = CHR ''.'' # r \<and> CHR ''.'' \<notin> set r \<and> r \<noteq> []"
  using assms unfolding glob_patterns_supported by auto

lemma pattern_suffix_of_pattern:
  assumes "a \<in> set (glob_patterns supported_formats)" "b \<in> set (glob_patterns supported_formats)"
    and "suffix a b"
  shows "a = b"
proof -
  from pattern_shape [OF assms(1)] obtain ra where a: "a = CHR ''.'' # ra"
    by blast
  from pattern_shape [OF assms(2)] obtain rb where b: "b = CHR ''.'' # rb" "CHR ''.'' \<notin> set rb"
    by blast
  from assms(3) obtain pre where pre: "b = pre @ a"
    by (auto simp: suffix_def)
  show ?thesis
  proof (cases pre)
    case Nil
    with pre show ?thesis by simp
  next
    case (Cons c pre')
    with pre a b(1) have "rb = pre' @ CHR ''.'' # ra"
      by simp
    with b(2) show ?thesis
      by simp
  qed
qed

lemma patterns_exclusive:
  assumes "a \<in> set (glob_patterns supported_formats)" "b \<in> set (glob_patterns supported_formats)"
    and "suffix a n" "suffix b n"
  shows "a = b"
  using suffix_same_cases [OF assms(3,4)] pattern_suffix_of_pattern [OF assms(1,2)]
    pattern_suffix_of_pattern [OF assms(2,1)] by auto

lemma filters_of_exclusive_patterns:
  assumes "distinct ps"
    and "\<And>a b n. a \<in> set ps \<Longrightarrow> b \<in> set ps \<Longrightarrow> suffix a n \<Longrightarrow> suffix b n \<Longrightarrow> a = b"
  shows "mset (concat (map (\<lambda>p. filter (suffix p) names) ps))
       = mset (filter (\<lambda>n. \<exists>p\<in>set ps. suffix p n) names)"
  using assms
proof (induction ps)
  case Nil
  show ?case by simp
next
  case (Cons p ps)
  have IH: "mset (concat (map (\<lambda>p. filter (suffix p) names) ps))
              = mset (filter (\<lambda>n. \<exists>p\<in>set ps. suffix p n) names)"
    using Cons.prems by (intro Cons.IH) auto
  have disjoint: "\<not> (suffix p n \<and> (\<exists>q\<in>set ps. suffix q n))" for n
    using Cons.prems(1) Cons.prems(2) [of p _ n] by auto
  have "mset (filter (suffix p) names) + mset (filter (\<lambda>n. \<exists>q\<in>set ps. suffix q n) names)
          = mset (filter (\<lambda>n. suffix p n \<or> (\<exists>q\<in>set ps. suffix q n)) names)"
    using disjoint by (induction names) auto
  then show ?case
    by (simp add: IH)
qed

lemma dir_supported_patterns:
  "dir_supported n = (\<exists>p\<in>set (glob_patterns supported_formats). suffix p n)"
  by (auto simp: dir_supported_def list_ex_iff set_glob_patterns)

lemma image_files_supported:
  assumes "pf \<noteq> Windows" "mset fmts = mset supported_formats"
  shows "mset (image_files pf fmts names) = mset (filter dir_supported names)"
proof -
  have "distinct (glob_patterns supported_formats)"
    unfolding glob_patterns_supported by simp
  then have "mset (image_files pf supported_formats names)
               = mset (filter (\<lambda>n. \<exists>p\<in>set (glob_patterns supported_formats). suffix p n) names)"
    unfolding image_files_patterns [OF assms(1)]
    by (rule filters_of_exclusive_patterns) (rule patterns_exclusive)
  then show ?thesis
    using image_files_order [OF assms(2), of pf names] by (simp add: dir_supported_patterns [abs_def])
qed

section \<open>The loop over the files\<close>

text \<open>
  The loop calls \<^verbatim>\<open>add_watermark\<close> once for each file picked up, in order: a file that
  raises is printed as failed, with its name, and the loop goes on; a file that does not
  is counted and saved.
\<close>

lemma process_images_outcomes:
  "process_images TAGS w input_path output_dir font_size color position alpha names
     = (length (concat (map (\<lambda>name.
            case add_watermark TAGS (image_of w (input_path @ [name])) (PathObj (output_dir @ [name]))
                   font_size color position alpha of Inr sv \<Rightarrow> [sv] | Inl e \<Rightarrow> []) names)),
        concat (map (\<lambda>name.
            case add_watermark TAGS (image_of w (input_path @ [name])) (PathObj (output_dir @ [name]))
                   font_size color position alpha of Inr sv \<Rightarrow> [] | Inl e \<Rightarrow> [Failed name e]) names),
        concat (map (\<lambda>name.
            case add_watermark TAGS (image_of w (input_path @ [name])) (PathObj (output_dir @ [name]))
                   font_size color position alpha of Inr sv \<Rightarrow> [sv] | Inl e \<Rightarrow> []) names))"
  by (induction names) (simp_all split: sum.splits)

lemma process_images_counts:
  "process_images TAGS w input_path output_dir font_size color position alpha names = (s, msgs, svs)
     \<Longrightarrow> s + length msgs = length names \<and> length svs = s \<and> (\<forall>m\<in>set msgs. \<exists>name e. m = Failed name e)"
proof (induction names arbitrary: s msgs svs)
  case Nil
  then show ?case by simp
next
  case (Cons name names)
  obtain s' msgs' svs' where rest:
    "process_images TAGS w input_path output_dir font_size color position alpha names = (s', msgs', svs')"
    by (cases "process_images TAGS w input_path output_dir font_size color position alpha names")
  from Cons.IH [OF rest] Cons.prems rest show ?case
    by (auto split: sum.splits)
qed

lemma process_images_never_succeeds:
  "process_images TAGS w input_path output_dir font_size color position alpha names = (s, msgs, svs)
     \<Longrightarrow> s = 0 \<and> svs = []"
proof (induction names arbitrary: s msgs svs)
  case Nil
  then show ?case by simp
next
  case (Cons name names)
  obtain s' msgs' svs' where rest:
    "process_images TAGS w input_path output_dir font_size color position alpha names = (s', msgs', svs')"
    by (cases "process_images TAGS w input_path output_dir font_size color position alpha names")
  from Cons.IH [OF rest] Cons.prems rest show ?case
    by (auto simp: add_watermark_path_object split: sum.splits)
qed

text \<open>
  Where file names are matched exactly (every platform but Windows) a directory run does
  what C2 says: it picks up the entries that end with a supported extension in lower or
  in upper case, each once, and ends with the report \<open>success_count/N\<close>.
\<close>

lemma batch_on_case_sensitive_platform:
  assumes "kind w input_path \<noteq> None"
    and "mkdir_exist_ok (dir_output input_path) w = Inr w'"
    and "platform w' \<noteq> Windows"
    and "mset fmts = mset supported_formats"
    and "N = length (filter dir_supported (entries w' input_path))"
    and "0 < N"
  shows "\<exists>files success_count msgs svs.
           mset files = mset (filter dir_supported (entries w' input_path))
         \<and> process_images TAGS w' input_path (dir_output input_path) font_size color position alpha files
             = (success_count, msgs, svs)
         \<and> process_directory TAGS fmts w input_path font_size color position alpha
             = \<lparr>log = [OutputDir (dir_output input_path), Found N] @ msgs
                      @ [Report success_count N, OutputDir (dir_output input_path)],
                after = w', saves = svs, uncaught = None\<rparr>
         \<and> success_count + length msgs = N"
proof -
  let ?files = "image_files (platform w') fmts (entries w' input_path)"
  have files: "mset ?files = mset (filter dir_supported (entries w' input_path))"
    using assms(3,4) by (rule image_files_supported)
  then have len: "length ?files = N"
    using assms(5) by (metis size_mset)
  obtain s msgs svs where loop:
    "process_images TAGS w' input_path (dir_output input_path) font_size color position alpha ?files = (s, msgs, svs)"
    by (cases "process_images TAGS w' input_path (dir_output input_path) font_size color position alpha ?files")
  have counts: "s + length msgs = N"
    using process_images_counts [OF loop] len by simp
  have nonempty: "?files \<noteq> []"
    using len assms(6) by auto
  have "process_directory TAGS fmts w input_path font_size color position alpha
      = \<lparr>log = [OutputDir (dir_output input_path), Found N] @ msgs
                      @ [Report s N, OutputDir (dir_output input_path)],
               after = w', saves = svs, uncaught = None\<rparr>"
    using assms(1,2) loop len nonempty
    by (auto simp: process_directory_def Let_def dir_output_def [symmetric])
  with files loop counts show ?thesis
    by blast
qed

text \<open>
  C2, on Windows. There \<^verbatim>\<open>glob\<close> matches without regard to letter case, so the pattern in
  lower case and the pattern in upper case each return every supported file: a directory
  with the one supported file \<^verbatim>\<open>a.jpg\<close> and the unsupported \<^verbatim>\<open>b.txt\<close> gives two files
  found, \<^verbatim>\<open>a.jpg\<close> is processed twice, and the report is out of 2, not out of 1.
\<close>

theorem windows_run_counts_each_file_twice:
  "filter dir_supported [''a.jpg'', ''b.txt''] = [''a.jpg'']
   \<and> image_files Windows supported_formats [''a.jpg'', ''b.txt''] = [''a.jpg'', ''a.jpg'']
   \<and> log (process_directory example_TAGS supported_formats example_windows [''shots''] 36 white
            ''bottom-right'' 204)
       = [OutputDir [''shots_watermark''], Found 2, Failed ''a.jpg'' AttributeError,
          Failed ''a.jpg'' AttributeError, Report 0 2, OutputDir [''shots_watermark'']]
   \<and> log (process_directory example_TAGS supported_formats example_world [''shots''] 36 white
            ''bottom-right'' 204)
       = [OutputDir [''shots_watermark''], Found 1, Failed ''a.jpg'' AttributeError, Report 0 1,
          OutputDir [''shots_watermark'']]"
  by code_simp

section \<open>Extensions in mixed case\<close>

lemma path_suffix_of_ending:
  assumes "CHR ''.'' \<notin> set r" "r \<noteq> []"
  shows "path_suffix (pre @ CHR ''.'' # r) = (if pre = [] then [] else CHR ''.'' # r)"
proof -
  have "takeWhile (\<lambda>c. c \<noteq> CHR ''.'') (rev r @ CHR ''.'' # rev pre) = rev r"
    using assms(1) by (auto simp: takeWhile_tail)
  then show ?thesis
    using assms(2) by (simp add: path_suffix_def)
qed

lemma path_suffix_of_matched:
  assumes "p \<in> set (glob_patterns supported_formats)" "suffix p name"
  shows "path_suffix name = p \<or> path_suffix name = []"
proof -
  from pattern_shape [OF assms(1)] obtain r where r: "p = CHR ''.'' # r" "CHR ''.'' \<notin> set r" "r \<noteq> []"
    by blast
  from assms(2) obtain pre where "name = pre @ p"
    by (auto simp: suffix_def)
  then show ?thesis
    using path_suffix_of_ending [OF r(2,3), of pre] r(1) by auto
qed

lemma mixed_case_not_dir_supported:
  assumes "mixed_case_supported (path_suffix name)"
  shows "\<not> dir_supported name"
proof
  assume "dir_supported name"
  then obtain p where p: "p \<in> set (glob_patterns supported_formats)" "suffix p name"
    by (auto simp: dir_supported_patterns)
  from path_suffix_of_matched [OF p] show False
  proof
    assume "path_suffix name = p"
    with p(1) assms show False
      by (auto simp: mixed_case_supported_def set_glob_patterns)
  next
    assume "path_suffix name = []"
    with assms show False
      by (simp add: mixed_case_supported_def lower_def supported_formats_def)
  qed
qed

lemma path_suffix_is_suffix: "suffix (path_suffix name) name"
proof (cases "path_suffix name = []")
  case True
  then show ?thesis by simp
next
  case False
  let ?P = "\<lambda>c. c \<noteq> CHR ''.''"
  from False have dot: "CHR ''.'' \<in> set (rev name)"
    and sfx: "path_suffix name = CHR ''.'' # rev (takeWhile ?P (rev name))"
    by (auto simp: path_suffix_def Let_def split: if_splits)
  from dot have "dropWhile ?P (rev name) \<noteq> []"
    by auto
  then obtain c ys where d: "dropWhile ?P (rev name) = c # ys"
    by (cases "dropWhile ?P (rev name)") auto
  then have "c = CHR ''.''"
    using hd_dropWhile [of ?P "rev name"] by auto
  with d have "rev name = takeWhile ?P (rev name) @ CHR ''.'' # ys"
    using takeWhile_dropWhile_id [of ?P "rev name"] by simp
  then have "rev (rev name) = rev (takeWhile ?P (rev name) @ CHR ''.'' # ys)"
    by (rule arg_cong)
  then have "name = rev ys @ CHR ''.'' # rev (takeWhile ?P (rev name))"
    by simp
  then show ?thesis
    unfolding sfx suffix_def by blast
qed

lemma windows_picks_up:
  assumes "lower (path_suffix name) \<in> set fmts" "set fmts = set supported_formats" "name \<in> set names"
  shows "name \<in> set (image_files Windows fmts names)"
proof -
  let ?ext = "lower (path_suffix name)"
  have "?ext \<in> set supported_formats"
    using assms(1,2) by simp
  then have same: "lower ?ext = ?ext"
    using lower_supported by (metis map_eq_conv map_ident)
  have "suffix ?ext (lower name)"
    unfolding lower_def by (rule map_mono_suffix) (rule path_suffix_is_suffix)
  then have "name \<in> set (glob_suffix Windows ?ext names)"
    using assms(3) same by (simp add: glob_suffix_def)
  then show ?thesis
    using assms(1) by (auto simp: image_files_def)
qed

text \<open>
  C10, as amended. A name whose extension is a supported one written in mixed case is
  accepted as a single file on every platform, because the suffix is put in lower case
  before the membership test. In a directory run it is passed over where file names are
  matched exactly (every platform but Windows), because the run looks for the endings in
  lower case and in upper case only; on Windows, where the match disregards letter case,
  it is picked up.
\<close>

theorem mixed_case_extension_asymmetry:
  assumes "mixed_case_supported (path_suffix name)"
  shows "lower (path_suffix name) \<in> set supported_formats
       \<and> (kind w p = Some IsFile \<and> path_name p = name
            \<longrightarrow> Unsupported (path_suffix name)
                  \<notin> set (log (main TAGS fmts w p font_size color_arg position alpha)))
       \<and> \<not> dir_supported name
       \<and> (pf \<noteq> Windows \<and> mset fmts = mset supported_formats \<longrightarrow> name \<notin> set (image_files pf fmts names))
       \<and> (mset fmts = mset supported_formats \<and> name \<in> set names
            \<longrightarrow> name \<in> set (image_files Windows fmts names))"
proof -
  have accepted: "lower (path_suffix name) \<in> set supported_formats"
    using assms by (simp add: mixed_case_supported_def)
  have single: "Unsupported (path_suffix name) \<notin> set (log (main TAGS fmts w p font_size color_arg position alpha))"
    if "kind w p = Some IsFile" "path_name p = name"
    using that accepted by (simp add: main_def Let_def split: sum.splits)
  have skipped: "\<not> dir_supported name"
    using assms by (rule mixed_case_not_dir_supported)
  have posix: "name \<notin> set (image_files pf fmts names)"
    if "pf \<noteq> Windows" "mset fmts = mset supported_formats"
  proof -
    have "set (image_files pf fmts names) = set (filter dir_supported names)"
      using image_files_supported [OF that, of names] by (metis set_mset_mset)
    with skipped show ?thesis
      by simp
  qed
  have windows: "name \<in> set (image_files Windows fmts names)"
    if "mset fmts = mset supported_formats" "name \<in> set names"
  proof -
    have "set fmts = set supported_formats"
      using that(1) by (metis set_mset_mset)
    with accepted that(2) show ?thesis
      by (intro windows_picks_up) simp_all
  qed
  from accepted single skipped posix windows show ?thesis
    by blast
qed

theorem mixed_case_extension_asymmetry_witness:
  "mixed_case_supported (path_suffix ''c.Jpg'')
   \<and> lower (path_suffix ''c.Jpg'') = ''.jpg''
   \<and> kind example_world [''photos'', ''c.Jpg''] = Some IsFile
   \<and> log (main example_TAGS supported_formats example_world [''photos'', ''c.Jpg''] 36 ''white''
            ''bottom-right'' 204)
       = [ProcessFailed AttributeError]
   \<and> ''c.Jpg'' \<notin> set (image_files Other supported_formats [''a.jpg'', ''b.txt'', ''c.Jpg''])
   \<and> ''c.Jpg'' \<notin> set (image_files Darwin supported_formats [''a.jpg'', ''b.txt'', ''c.Jpg''])
   \<and> ''c.Jpg'' \<in> set (image_files Windows supported_formats [''a.jpg'', ''b.txt'', ''c.Jpg''])"
proof -
  have a: "mixed_case_supported (path_suffix ''c.Jpg'')"
    by code_simp
  have b: "lower (path_suffix ''c.Jpg'') = ''.jpg''"
    by code_simp
  have c: "kind example_world [''photos'', ''c.Jpg''] = Some IsFile"
    by (simp add: example_world_def)
  have d: "log (main example_TAGS supported_formats example_world [''photos'', ''c.Jpg''] 36 ''white''
                  ''bottom-right'' 204)
             = [ProcessFailed AttributeError]"
    by code_simp
  from mixed_case_extension_asymmetry [OF a, of example_world "[''photos'', ''c.Jpg'']" example_TAGS
      supported_formats 36 "''white''" "''bottom-right''" 204 Other "[''a.jpg'', ''b.txt'', ''c.Jpg'']"]
    mixed_case_extension_asymmetry [OF a, of example_world "[''photos'', ''c.Jpg'']" example_TAGS
      supported_formats 36 "''white''" "''bottom-right''" 204 Darwin "[''a.jpg'', ''b.txt'', ''c.Jpg'']"]
    a b c d
  show ?thesis
    by simp
qed

text \<open>
  C10 as it is written fails on Windows: the file with the extension in mixed case is
  not passed over by the directory run.
\<close>

theorem mixed_case_on_windows_counterexample:
  "mixed_case_supported (path_suffix ''c.Jpg'')
   \<and> ''c.Jpg'' \<in> set (image_files (platform example_windows) supported_formats
                         (entries example_windows [''photos'']))
   \<and> Failed ''c.Jpg'' AttributeError
       \<in> set (log (process_directory example_TAGS supported_formats example_windows [''photos''] 36 white
                      ''bottom-right'' 204))"
  by code_simp

section \<open>Claims about \<^verbatim>\<open>parse_color\<close>\<close>

lemma split_on_no_separator: "c \<notin> set s \<Longrightarrow> split_on c s = [s]"
  by (induction s) auto

lemma split_on_append: "c \<notin> set p \<Longrightarrow> split_on c (p @ c # r) = p # split_on c r"
  by (induction p) auto

lemma decimal_no_comma:
  assumes "decimal p"
  shows "CHR '','' \<notin> set p"
proof
  assume "CHR '','' \<in> set p"
  moreover from assms have "\<forall>c \<in> set p. is_digit c"
    unfolding decimal_def list_all_iff by blast
  ultimately have "is_digit CHR '',''"
    by blast
  then show False
    by (simp add: is_digit_def)
qed

lemma split_join_commas:
  "parts \<noteq> [] \<Longrightarrow> list_all decimal parts \<Longrightarrow> split_on CHR '','' (join_commas parts) = parts"
proof (induction parts rule: join_commas.induct)
  case 1
  then show ?case by simp
next
  case (2 p)
  then have "CHR '','' \<notin> set p"
    by (simp add: decimal_no_comma)
  then show ?case
    by (simp add: split_on_no_separator)
next
  case (3 p q ps)
  from "3.prems" have p: "CHR '','' \<notin> set p" and rest: "list_all decimal (q # ps)"
    by (simp_all add: decimal_no_comma)
  have IH: "split_on CHR '','' (join_commas (q # ps)) = q # ps"
    using rest by (intro "3.IH") simp_all
  show ?case
    by (simp only: join_commas.simps split_on_append [OF p] IH)
qed

lemma digit_in_ten: "is_digit c \<Longrightarrow> digit_in 10 c \<and> c \<noteq> CHR ''_'' \<and> c \<noteq> CHR ''-'' \<and> c \<noteq> CHR ''+'' \<and> c \<noteq> CHR ''#''"
  by (auto simp: is_digit_def digit_in_def char_value_def in_range_def)

lemma rest_ok_digits: "list_all is_digit r \<Longrightarrow> rest_ok 10 r"
  by (induction r) (simp_all add: digit_in_ten)

lemma filter_digits: "list_all is_digit s \<Longrightarrow> filter (\<lambda>c. c \<noteq> CHR ''_'') s = s"
  by (induction s) (simp_all add: digit_in_ten)

lemma digit_not_int_space: "is_digit c \<Longrightarrow> \<not> is_int_space c"
  by (auto simp: is_digit_def is_int_space_def)

lemma dropWhile_space_digits: "list_all is_digit s \<Longrightarrow> dropWhile is_int_space s = s"
  by (cases s) (simp_all add: digit_not_int_space)

lemma strip_digits: "list_all is_digit s \<Longrightarrow> strip s = s"
  by (simp add: strip_def dropWhile_space_digits)

lemma py_int_decimal:
  assumes "decimal s"
  shows "py_int 10 s = Inr (int (digits_value 10 s))"
proof -
  from assms obtain a r where s: "s = a # r" and dg: "list_all is_digit (a # r)" and len: "length (a # r) \<le> 4300"
    by (cases s) (auto simp: decimal_def)
  have a: "digit_in 10 a" "a \<noteq> CHR ''-''" "a \<noteq> CHR ''+''" "a \<noteq> CHR ''_''"
    using dg by (simp_all add: digit_in_ten)
  have ok: "digits_ok 10 (a # r)"
    using dg by (simp add: digits_ok_def a rest_ok_digits)
  have keep: "filter (\<lambda>c. c \<noteq> CHR ''_'') r = r"
    using dg by (simp add: filter_digits)
  have body: "py_int 10 (a # r)
      = (if \<not> digits_ok 10 (a # r) then Inl ValueError
         else if 4300 < length (filter (\<lambda>c. c \<noteq> CHR ''_'') (a # r)) then Inl ValueError
         else Inr (int (digits_value 10 (filter (\<lambda>c. c \<noteq> CHR ''_'') (a # r)))))"
    using a(2,3) by (simp add: py_int_def strip_digits [OF dg] Let_def)
  show ?thesis
    unfolding s body using a(4) ok len keep by simp
qed

lemma collect_all_ok: "(\<And>x. x \<in> set xs \<Longrightarrow> f x = Inr (g x)) \<Longrightarrow> collect (map f xs) = Inr (map g xs)"
  by (induction xs) simp_all

lemma join_commas_first:
  "decimal p \<Longrightarrow> \<exists>a r. join_commas (p # ps) = a # r \<and> is_digit a"
  by (cases p; cases ps) (auto simp: decimal_def)

lemma join_commas_has_comma: "2 \<le> length parts \<Longrightarrow> CHR '','' \<in> set (join_commas parts)"
  by (induction parts rule: join_commas.induct) simp_all

lemma parse_color_commas:
  assumes "list_all decimal parts" "2 \<le> length parts"
  shows "parse_color (join_commas parts) = map (\<lambda>p. int (digits_value 10 p)) parts"
proof -
  from assms(2) obtain p ps where parts: "parts = p # ps"
    by (cases parts) auto
  from assms(1) have "decimal p"
    by (simp add: parts)
  from join_commas_first [OF this, of ps] obtain a r where j: "join_commas parts = a # r" "is_digit a"
    by (auto simp: parts)
  have no_hash: "\<not> prefix ''#'' (join_commas parts)"
    using j digit_in_ten [of a] by auto
  have comma: "CHR '','' \<in> set (join_commas parts)"
    using assms(2) by (rule join_commas_has_comma)
  have split: "split_on CHR '','' (join_commas parts) = parts"
    using assms(1) by (intro split_join_commas) (simp_all add: parts)
  have "collect (map (py_int 10) parts) = Inr (map (\<lambda>p. int (digits_value 10 p)) parts)"
    using assms(1) by (intro collect_all_ok py_int_decimal) (simp add: list_all_iff)
  then show ?thesis
    using no_hash comma by (simp add: parse_color_def parse_color_body_def split)
qed

lemma hex_cases:
  "is_hex c \<Longrightarrow> c = CHR ''0'' \<or> c = CHR ''1'' \<or> c = CHR ''2'' \<or> c = CHR ''3'' \<or> c = CHR ''4''
     \<or> c = CHR ''5'' \<or> c = CHR ''6'' \<or> c = CHR ''7'' \<or> c = CHR ''8'' \<or> c = CHR ''9''
     \<or> c = CHR ''a'' \<or> c = CHR ''b'' \<or> c = CHR ''c'' \<or> c = CHR ''d'' \<or> c = CHR ''e'' \<or> c = CHR ''f''
     \<or> c = CHR ''A'' \<or> c = CHR ''B'' \<or> c = CHR ''C'' \<or> c = CHR ''D'' \<or> c = CHR ''E'' \<or> c = CHR ''F''"
  by (simp add: is_hex_def)

lemma hex_digit_all:
  assumes "is_hex c"
  shows "\<not> is_int_space c \<and> c \<noteq> CHR ''-'' \<and> c \<noteq> CHR ''+'' \<and> c \<noteq> CHR ''_'' \<and> c \<noteq> CHR ''x'' \<and> c \<noteq> CHR ''X''
    \<and> c \<noteq> CHR ''#'' \<and> digit_in 16 c \<and> char_value c = Some (hex_val c) \<and> hex_val c < 16"
  using hex_cases [OF assms]
  by (elim disjE; simp add: is_int_space_def digit_in_def char_value_def hex_val_def in_range_def)

lemma hex_digit:
  assumes "is_hex c"
  shows "\<not> is_int_space c" "c \<noteq> CHR ''-''" "c \<noteq> CHR ''+''" "c \<noteq> CHR ''_''" "c \<noteq> CHR ''x''" "c \<noteq> CHR ''X''"
    "c \<noteq> CHR ''#''" "digit_in 16 c" "char_value c = Some (hex_val c)" "hex_val c < 16"
  using hex_digit_all [OF assms] by blast+

lemma py_int_hex_pair:
  assumes "is_hex a" "is_hex b"
  shows "py_int 16 [a, b] = Inr (int (16 * hex_val a + hex_val b))"
proof -
  have strip: "strip [a, b] = [a, b]"
    using hex_digit(1) [OF assms(1)] hex_digit(1) [OF assms(2)] by (simp add: strip_def)
  have ok: "digits_ok 16 [a, b]"
    using hex_digit(8) [OF assms(1)] hex_digit(8) [OF assms(2)] hex_digit(4) [OF assms(2)]
    by (simp add: digits_ok_def)
  have val: "digits_value 16 [a, b] = 16 * hex_val a + hex_val b"
    using hex_digit(9) [OF assms(1)] hex_digit(9) [OF assms(2)] by (simp add: digits_value_def)
  show ?thesis
    using hex_digit(2-6) [OF assms(1)] hex_digit(2-6) [OF assms(2)] ok val
    by (simp add: py_int_def strip Let_def)
qed

lemma parse_color_hex:
  assumes "list_all is_hex [a, b, c, d, e, f]"
  shows "parse_color (CHR ''#'' # [a, b, c, d, e, f])
       = [int (16 * hex_val a + hex_val b), int (16 * hex_val c + hex_val d), int (16 * hex_val e + hex_val f)]"
proof -
  from assms have h: "is_hex a" "is_hex b" "is_hex c" "is_hex d" "is_hex e" "is_hex f"
    by simp_all
  show ?thesis
    using hex_digit(7) [OF h(1)]
    by (simp add: parse_color_def parse_color_body_def Let_def py_int_hex_pair h)
qed

lemma named_color_valid: "valid_rgb (case map_of colors k of Some c \<Rightarrow> c | None \<Rightarrow> white)"
  by (simp add: colors_def white_def valid_rgb_def)

text \<open>
  C6, as amended. \<^verbatim>\<open>parse_color\<close> never raises. An input that neither starts with \<^verbatim>\<open>#\<close>
  nor holds a comma is read as a colour name: a predefined name, in any letter case, gives
  its triple and any other name gives white. \<^verbatim>\<open>#\<close> followed by six hexadecimal digits gives
  the triple of the three bytes. Both results are RGB triples with components in 0 to 255.
  Two or more decimal numerals (of at most 4300 digits each) separated by commas give the
  integers as written, however many there are and however large they are: the result is
  a valid RGB triple exactly when there are three of them and each is at most 255. Any
  input on which a conversion raises gives white, which is a valid RGB triple.
\<close>

theorem parse_color_forms:
  "(\<not> prefix ''#'' s \<and> CHR '','' \<notin> set s
      \<longrightarrow> parse_color s = (case map_of colors (lower s) of Some c \<Rightarrow> c | None \<Rightarrow> white)
          \<and> valid_rgb (parse_color s))
   \<and> (list_all is_hex [a, b, c, d, e, f]
      \<longrightarrow> parse_color (CHR ''#'' # [a, b, c, d, e, f])
            = [int (16 * hex_val a + hex_val b), int (16 * hex_val c + hex_val d),
               int (16 * hex_val e + hex_val f)]
          \<and> valid_rgb (parse_color (CHR ''#'' # [a, b, c, d, e, f])))
   \<and> (list_all decimal parts \<and> 2 \<le> length parts
      \<longrightarrow> parse_color (join_commas parts) = map (\<lambda>p. int (digits_value 10 p)) parts
          \<and> valid_rgb (parse_color (join_commas parts))
              = (length parts = 3 \<and> list_all (\<lambda>p. digits_value 10 p \<le> 255) parts))
   \<and> (parse_color_body s = Inl err \<longrightarrow> parse_color s = white)
   \<and> valid_rgb white"
proof (intro conjI impI)
  assume "\<not> prefix ''#'' s \<and> CHR '','' \<notin> set s"
  then have "parse_color s = (case map_of colors (lower s) of Some c \<Rightarrow> c | None \<Rightarrow> white)"
    by (simp add: parse_color_def parse_color_body_def)
  then show "parse_color s = (case map_of colors (lower s) of Some c \<Rightarrow> c | None \<Rightarrow> white)"
    and "valid_rgb (parse_color s)"
    by (simp_all add: named_color_valid)
next
  assume h: "list_all is_hex [a, b, c, d, e, f]"
  then have hx: "is_hex a" "is_hex b" "is_hex c" "is_hex d" "is_hex e" "is_hex f"
    by simp_all
  show eq: "parse_color (CHR ''#'' # [a, b, c, d, e, f])
        = [int (16 * hex_val a + hex_val b), int (16 * hex_val c + hex_val d), int (16 * hex_val e + hex_val f)]"
    using h by (rule parse_color_hex)
  show "valid_rgb (parse_color (CHR ''#'' # [a, b, c, d, e, f]))"
    unfolding eq
    using hex_digit(10) [OF hx(1)] hex_digit(10) [OF hx(2)] hex_digit(10) [OF hx(3)]
      hex_digit(10) [OF hx(4)] hex_digit(10) [OF hx(5)] hex_digit(10) [OF hx(6)]
    by (simp add: valid_rgb_def)
next
  assume h: "list_all decimal parts \<and> 2 \<le> length parts"
  then show eq: "parse_color (join_commas parts) = map (\<lambda>p. int (digits_value 10 p)) parts"
    by (simp add: parse_color_commas)
  show "valid_rgb (parse_color (join_commas parts))
          = (length parts = 3 \<and> list_all (\<lambda>p. digits_value 10 p \<le> 255) parts)"
    unfolding eq by (auto simp: valid_rgb_def list_all_iff)
next
  assume "parse_color_body s = Inl err"
  then show "parse_color s = white"
    by (simp add: parse_color_def)
next
  show "valid_rgb white"
    by (simp add: valid_rgb_def white_def)
qed

theorem parse_color_forms_witness:
  "\<not> prefix ''#'' ''Magenta'' \<and> CHR '','' \<notin> set ''Magenta'' \<and> parse_color ''Magenta'' = [255, 0, 255]
   \<and> list_all is_hex ''00fF7a'' \<and> parse_color ''#00fF7a'' = [0, 255, 122]
   \<and> list_all decimal [''12'', ''0255'', ''7''] \<and> parse_color ''12,0255,7'' = [12, 255, 7]
   \<and> valid_rgb (parse_color ''12,0255,7'')
   \<and> parse_color_body ''1,,2'' = Inl ValueError \<and> parse_color ''1,,2'' = white"
proof -
  have a: "\<not> prefix ''#'' ''Magenta'' \<and> CHR '','' \<notin> set ''Magenta''"
    by simp
  have b: "list_all is_hex [CHR ''0'', CHR ''0'', CHR ''f'', CHR ''F'', CHR ''7'', CHR ''a'']"
    by (simp add: is_hex_def)
  have c: "list_all decimal [''12'', ''0255'', ''7''] \<and> 2 \<le> length [''12'', ''0255'', ''7'']"
    by (simp add: decimal_def is_digit_def)
  have d: "parse_color_body ''1,,2'' = Inl ValueError"
    by code_simp
  have v: "(case map_of colors (lower ''Magenta'') of Some c \<Rightarrow> c | None \<Rightarrow> white) = [255, 0, 255]"
    "[int (16 * hex_val CHR ''0'' + hex_val CHR ''0''), int (16 * hex_val CHR ''f'' + hex_val CHR ''F''),
      int (16 * hex_val CHR ''7'' + hex_val CHR ''a'')] = [0, 255, 122]"
    "map (\<lambda>p. int (digits_value 10 p)) [''12'', ''0255'', ''7''] = [12, 255, 7]"
    "join_commas [''12'', ''0255'', ''7''] = ''12,0255,7''"
    "list_all (\<lambda>p. digits_value 10 p \<le> 255) [''12'', ''0255'', ''7'']"
    by code_simp+
  from parse_color_forms [of "''Magenta''" "CHR ''0''" "CHR ''0''" "CHR ''f''" "CHR ''F''" "CHR ''7''" "CHR ''a''"
      "[''12'', ''0255'', ''7'']" ValueError]
    parse_color_forms [of "''1,,2''" "CHR ''0''" "CHR ''0''" "CHR ''f''" "CHR ''F''" "CHR ''7''" "CHR ''a''"
      "[''12'', ''0255'', ''7'']" ValueError]
    a b c d v
  show ?thesis
    by simp
qed

text \<open>
  C6 as it is written fails: a comma-separated input gives components above 255, and an
  input with one comma gives two components.
\<close>

theorem parse_color_out_of_range_counterexample:
  "parse_color ''300,300,300'' = [300, 300, 300]
   \<and> \<not> valid_rgb (parse_color ''300,300,300'')
   \<and> parse_color ''1,2'' = [1, 2]
   \<and> \<not> valid_rgb (parse_color ''1,2'')"
  by code_simp

end
